theory Spec2Isabelle
  imports Complex_Main "HOL-Library.Sublist"
begin

section \<open>Python values and errors\<close>

text \<open>
  Exceptions that the modelled code can raise, and two ways in which the model itself
  stops. \<open>NonFinite\<close>: numpy answers a division by zero or a logarithm of a non-positive
  number with \<open>nan\<close> or \<open>inf\<close> and a warning, not with an exception; the model does not
  compute with such values. \<open>IllTyped\<close>: a variable receives a value of a type that the
  model does not have. Floating-point numbers are modelled as reals.
\<close>

datatype py_error = ValueError | ZeroDivisionError | OSError | NonFinite | IllTyped

section \<open>Analysis scripts\<close>

subsection \<open>Library routines used by the analysis\<close>

text \<open>\<open>np.log10\<close> applied to an array: finite exactly when every element is positive.\<close>

definition np_log10 :: "real list \<Rightarrow> real list option" where
  "np_log10 xs = (if \<forall>x \<in> set xs. 0 < x then Some (map (log 10) xs) else None)"

text \<open>\<open>np.arange(1, n + 1)\<close>.\<close>

definition np_arange1 :: "nat \<Rightarrow> real list" where
  "np_arange1 n = map real [1 ..< n + 1]"

definition np_mean :: "real list \<Rightarrow> real" where
  "np_mean xs = sum_list xs / real (length xs)"

text \<open>
  Modelled from the spec: \<open>scipy.stats.linregress\<close> is library code that is not part of
  the sources. The specification (section 4.4 and the glossary) describes it as the linear
  regression of log10(value) on log10(rank) that yields a slope and \<open>R\<^sup>2\<close>; this is the
  ordinary least-squares fit, computed over the reals from the mean squared deviations
  \<open>ssxm\<close>, \<open>ssym\<close> and the mean co-deviation \<open>ssxym\<close>. The result is
  (slope, intercept, r_value); there is none when the inputs are empty or all abscissae
  coincide (the library raises or answers \<open>nan\<close> there). The p-value and the standard
  error are not modelled.
\<close>

definition linregress :: "real list \<Rightarrow> real list \<Rightarrow> (real \<times> real \<times> real) option" where
  "linregress x y =
     (let xmean = np_mean x;
          ymean = np_mean y;
          ssxm = np_mean (map (\<lambda>a. (a - xmean)\<^sup>2) x);
          ssym = np_mean (map (\<lambda>b. (b - ymean)\<^sup>2) y);
          ssxym = np_mean (map (\<lambda>(a, b). (a - xmean) * (b - ymean)) (zip x y))
      in if length x = 0 \<or> ssxm = 0 then None
         else Some (ssxym / ssxm,
                    ymean - (ssxym / ssxm) * xmean,
                    if ssym = 0 then 0 else ssxym / sqrt (ssxm * ssym)))"

subsection \<open>calc_power_law_simple.py\<close>

text \<open>
  \<open>calculate_power_law(data)\<close> returns the triple \<open>(alpha, r_squared, len(data))\<close>, or the
  sentinel \<open>(None, None, None)\<close> when no value is positive.
\<close>

definition calculate_power_law ::
  "real list \<Rightarrow> py_error + (real option \<times> real option \<times> nat option)" where
  "calculate_power_law data0 =
     (let data = filter (\<lambda>x. x > 0) data0 in
      if length data = 0 then Inr (None, None, None)
      else
        let sorted_data = rev (sort data);
            ranks = np_arange1 (length sorted_data)
        in case (np_log10 ranks, np_log10 sorted_data) of
             (Some log_ranks, Some log_values) \<Rightarrow>
               (case linregress log_ranks log_values of
                  None \<Rightarrow> Inl NonFinite
                | Some (slope, intercept, r_value) \<Rightarrow>
                    let alpha = - slope;
                        r_squared = r_value\<^sup>2
                    in Inr (Some alpha, Some r_squared, Some (length data)))
           | _ \<Rightarrow> Inl NonFinite)"

subsection \<open>check_power_law.py and analyze_review_power_law.py\<close>

text \<open>
  The Gini coefficient, written out identically in \<open>check_power_law.py\<close> (line 83) and in
  \<open>calculate_power_law_metrics\<close> (line 65):
  \<open>(2 * np.sum(index * sorted_asc)) / (n * np.sum(sorted_asc)) - (n + 1) / n\<close>.
  The first quotient divides numpy numbers (a zero denominator gives \<open>nan\<close> or \<open>inf\<close>),
  the second divides Python integers (\<open>n = 0\<close> raises).
\<close>

definition gini :: "real list \<Rightarrow> py_error + real" where
  "gini data =
     (let sorted_asc = sort data;
          n = length sorted_asc;
          index = np_arange1 n
      in if n = 0 then Inl ZeroDivisionError
         else if real n * sum_list sorted_asc = 0 then Inl NonFinite
         else Inr ((2 * sum_list (map (\<lambda>(i, x). i * x) (zip index sorted_asc)))
                     / (real n * sum_list sorted_asc)
                   - (real n + 1) / real n))"

text \<open>
  \<open>calculate_power_law_metrics(data)\<close>: the same rank-size regression without the filter
  (the caller, \<open>load_review_data\<close>, keeps positive values only), followed by the Gini
  coefficient. Of the returned dictionary the entries \<open>alpha\<close>, \<open>r_squared\<close>, \<open>gini\<close>,
  \<open>slope\<close> and \<open>intercept\<close> are modelled; the top-k shares and the p-value are not.
\<close>

record metrics =
  alpha :: real
  r_squared :: real
  gini_coefficient :: real
  slope :: real
  intercept :: real

definition calculate_power_law_metrics :: "real list \<Rightarrow> py_error + metrics" where
  "calculate_power_law_metrics data =
     (let sorted_data = rev (sort data);
          n = length sorted_data;
          ranks = np_arange1 n
      in case (np_log10 ranks, np_log10 sorted_data) of
           (Some log_ranks, Some log_values) \<Rightarrow>
             (case linregress log_ranks log_values of
                None \<Rightarrow> Inl (if n = 0 then ValueError else NonFinite)
              | Some (slope', intercept', r_value) \<Rightarrow>
                  (case gini data of
                     Inl e \<Rightarrow> Inl e
                   | Inr g \<Rightarrow>
                       Inr \<lparr>alpha = - slope', r_squared = r_value\<^sup>2, gini_coefficient = g,
                            slope = slope', intercept = intercept'\<rparr>))
         | _ \<Rightarrow> Inl NonFinite)"


section \<open>Collectors: the outside world\<close>

text \<open>
  The collectors talk to the Steam web API and to the file system. Both are explicit:
  \<^item> an environment \<open>env\<close> answers every HTTP request. The answer may depend on the
    logical time, the number of requests issued before it, so that a fetch need not be
    idempotent. An answer \<open>None\<close> stands for every way a request fails inside the
    \<open>try\<close> block of its method: a transport error, a status other than 200, an
    unexpected shape of the response.
  \<^item> a \<open>world\<close> holds the files written so far and the log of the requests issued.
  Logging, \<open>time.sleep\<close> and the progress display change neither and are left out.
  Unicode text in file names and log lines is not modelled.
\<close>

datatype request = AppDetails int | CurrentPlayers int | Achievements int | AppReviews int

text \<open>The part of the \<open>appdetails\<close> response that \<open>get_game_details\<close> reads.\<close>

record store_details =
  api_type :: "string option"
  api_is_free :: bool
  api_categories :: "string list"
  api_genres :: "string list"
  api_price_overview :: "real option option"
  api_metacritic :: "int option option"

text \<open>The part of the \<open>appreviews\<close> response that \<open>get_review_count\<close> reads.\<close>

record query_summary =
  summary_total_reviews :: int
  summary_total_positive :: int
  summary_total_negative :: int

record env =
  current_players :: "nat \<Rightarrow> int \<Rightarrow> int option"
  appdetails :: "nat \<Rightarrow> int \<Rightarrow> store_details option"
  achievements :: "nat \<Rightarrow> int \<Rightarrow> nat option"
  appreviews :: "nat \<Rightarrow> int \<Rightarrow> query_summary option"
  now_isoformat :: "nat \<Rightarrow> string"
  run_seconds :: real
  writable :: "string \<Rightarrow> bool"

text \<open>
  A file holds what one of the writers put there: a JSON list of records
  (\<open>json.dump(data)\<close>), the JSON list of a set of identifiers (its order is that of the
  Python set, so the content is the set), or a table written by pandas. \<open>Unreadable\<close> is a
  file whose \<open>open\<close> or \<open>json.load\<close> raises. A file that parses as JSON of another shape
  than the writers produce is outside this type.
\<close>

datatype ('r, 'w) file_content =
    Unreadable
  | JsonList "'r list"
  | JsonIds "int set"
  | CsvTable "'w list"
  | ExcelTable "'w list"

record ('r, 'w) world =
  disk :: "string \<Rightarrow> ('r, 'w) file_content option"
  requests :: "request list"

text \<open>\<open>self.stats\<close>; the player-count collector has no \<open>with_metacritic\<close> entry.\<close>

record stats =
  total_requested :: nat
  successful :: nat
  failed :: nat
  with_players :: nat
  with_metacritic :: nat

text \<open>
  The collector object: of its attributes only the checkpoint interval and the
  statistics matter here (delay, timeout and the HTTP session act on the environment).
\<close>

record collector =
  checkpoint_interval :: int
  stats :: stats

subsection \<open>Python built-ins\<close>

text \<open>\<open>str(n)\<close> for a natural number, as the f-strings of the file names format it.\<close>

function str_of_nat :: "nat \<Rightarrow> string" where
  "str_of_nat n =
     (if n < 10 then [''0123456789'' ! n]
      else str_of_nat (n div 10) @ [''0123456789'' ! (n mod 10)])"
  by pat_completeness auto
termination
  by (relation "measure id") auto

declare str_of_nat.simps [simp del]

text \<open>\<open>range(start, stop, step)\<close>; a zero step raises \<open>ValueError\<close>.\<close>

function py_range_from :: "int \<Rightarrow> int \<Rightarrow> int \<Rightarrow> int list" where
  "py_range_from start stop step =
     (if (0 < step \<and> start < stop) \<or> (step < 0 \<and> stop < start)
      then start # py_range_from (start + step) stop step
      else [])"
  by pat_completeness auto
termination
  by (relation "measure (\<lambda>(start, stop, step).
        nat (if 0 < step then stop - start else start - stop))") auto

declare py_range_from.simps [simp del]

definition py_range :: "int \<Rightarrow> int \<Rightarrow> int \<Rightarrow> py_error + int list" where
  "py_range start stop step =
     (if step = 0 then Inl ValueError else Inr (py_range_from start stop step))"

subsection \<open>Sampling (steam_player_count_fast.py and steam_api_data_fixed.py)\<close>

text \<open>
  \<open>random_sample_app_ids\<close> is the same in \<open>SteamPlayerCountCollector\<close> and
  \<open>SteamRandomCollector\<close>. The generator of Python's \<open>random\<close> module is library code;
  it enters as two parameters: \<open>random_seed\<close>, the state that \<open>random.seed(s)\<close>
  installs, and \<open>random_sample\<close>, which draws from a state and returns the next one. The
  state \<open>g\<close> is the module's global generator at the time of the call. \<open>random.sample\<close>
  raises for a negative size, and \<open>min(sampled_ids)\<close> in the log line raises for an empty
  sample.
\<close>

definition random_sample_app_ids ::
  "(int \<Rightarrow> 'g) \<Rightarrow> ('g \<Rightarrow> int list \<Rightarrow> nat \<Rightarrow> int list \<times> 'g) \<Rightarrow>
   'g \<Rightarrow> int list \<Rightarrow> int \<Rightarrow> int option \<Rightarrow> py_error + (int list \<times> 'g)" where
  "random_sample_app_ids random_seed random_sample g all_app_ids sample_size seed =
     (let g1 = (case seed of Some s \<Rightarrow> random_seed s | None \<Rightarrow> g);
          actual_sample_size = min sample_size (int (length all_app_ids))
      in if actual_sample_size < 0 then Inl ValueError
         else
           let (sampled_ids, g2) = random_sample g1 all_app_ids (nat actual_sample_size)
           in if sampled_ids = [] then Inl ValueError
              else Inr (sampled_ids, g2))"

section \<open>steam_player_count_fast.py: SteamPlayerCountCollector\<close>

text \<open>The dictionary that \<open>get_player_count\<close> returns.\<close>

record player_data =
  app_id :: int
  player_count :: int
  collected_at :: string

type_synonym player_world = "(player_data, player_data) world"

definition get_player_count ::
  "env \<Rightarrow> player_world \<Rightarrow> int \<Rightarrow> player_data option \<times> player_world" where
  "get_player_count e w app_id' =
     (let t = length (requests w);
          w' = w\<lparr>requests := requests w @ [CurrentPlayers app_id']\<rparr>
      in case current_players e t app_id' of
           Some count \<Rightarrow>
             (Some \<lparr>app_id = app_id', player_count = count,
                    collected_at = now_isoformat e t\<rparr>, w')
         | None \<Rightarrow> (None, w'))"

definition checkpoint_file :: "string \<Rightarrow> nat \<Rightarrow> string" where
  "checkpoint_file output_prefix i = output_prefix @ ''_checkpoint_'' @ str_of_nat i @ ''.json''"

definition processed_ids_file :: "string \<Rightarrow> string" where
  "processed_ids_file output_prefix = output_prefix @ ''_processed_ids.json''"

text \<open>
  \<open>_save_checkpoint\<close> and \<open>_save_processed_ids\<close> catch a failing write and only log it.
\<close>

definition save_checkpoint :: "env \<Rightarrow> 'r list \<Rightarrow> string \<Rightarrow> ('r, 'w) world \<Rightarrow> ('r, 'w) world" where
  "save_checkpoint e data filename w =
     (if writable e filename then w\<lparr>disk := (disk w)(filename \<mapsto> JsonList data)\<rparr> else w)"

definition save_processed_ids ::
  "env \<Rightarrow> int set \<Rightarrow> string \<Rightarrow> ('r, 'w) world \<Rightarrow> ('r, 'w) world" where
  "save_processed_ids e ids filename w =
     (if writable e filename then w\<lparr>disk := (disk w)(filename \<mapsto> JsonIds ids)\<rparr> else w)"

text \<open>
  The state of the accumulation loop of \<open>collect_bulk\<close>. \<open>saved\<close> is a history variable:
  it records the arguments of every pair of calls to \<open>_save_checkpoint\<close> and
  \<open>_save_processed_ids\<close>, latest last.
\<close>

record loop_state =
  all_data :: "player_data list"
  processed_ids :: "int set"
  self :: collector
  world :: player_world
  saved :: "(string \<times> player_data list \<times> int set) list"

text \<open>
  Lines 190 to 210: the search for a checkpoint, over the indices that \<open>range\<close> yields.
  The tuple is (\<open>all_data\<close>, \<open>processed_ids\<close>, \<open>start_index\<close>, \<open>checkpoint_loaded\<close>).
  A file that exists but cannot be loaded leaves the tuple as it is and the search goes
  on; the first file that loads ends it (\<open>break\<close>). The indices are positive, because
  the range stops before 0.

  When \<open>json.load\<close> succeeds and the set comprehension raises (an element without
  \<open>app_id\<close>), the source has bound \<open>all_data\<close> to the loaded value already, keeps
  \<open>processed_ids\<close> as it was and goes on scanning. Such a value is no list of records:
  the file type has one content of this kind, a non-empty list of identifiers, and there
  the model stops with \<open>IllTyped\<close>; a record list with a malformed element is outside
  the file type. The invariant of the accumulator is proved below for disks whose
  checkpoint files are as \<open>_save_checkpoint\<close> writes them (see \<open>checkpoints_ok\<close>),
  where this path is not taken.
\<close>

fun find_checkpoint ::
  "(string \<Rightarrow> (player_data, player_data) file_content option) \<Rightarrow> string \<Rightarrow> int list \<Rightarrow>
   player_data list \<times> int set \<times> int \<times> bool \<Rightarrow>
   py_error + player_data list \<times> int set \<times> int \<times> bool" where
  "find_checkpoint fs output_prefix [] found = Inr found"
| "find_checkpoint fs output_prefix (i # rest) found =
     (case fs (checkpoint_file output_prefix (nat i)) of
        None \<Rightarrow> find_checkpoint fs output_prefix rest found
      | Some (JsonList loaded) \<Rightarrow> Inr (loaded, set (map app_id loaded), i, True)
      | Some (JsonIds ids) \<Rightarrow> if ids = {} then Inr ([], {}, i, True) else Inl IllTyped
      | Some _ \<Rightarrow> find_checkpoint fs output_prefix rest found)"

text \<open>Lines 185 to 214: the state in which the loop starts.\<close>

definition collect_bulk_start ::
  "collector \<Rightarrow> player_world \<Rightarrow> int list \<Rightarrow> string \<Rightarrow> bool \<Rightarrow> py_error + loop_state" where
  "collect_bulk_start slf w app_ids output_prefix resume =
     (case (if resume
            then (case py_range (int (length app_ids)) 0 (- checkpoint_interval slf) of
                    Inl err \<Rightarrow> Inl err
                  | Inr indices \<Rightarrow>
                      find_checkpoint (disk w) output_prefix indices ([], {}, 0, False))
            else Inr ([], {}, 0, False)) of
        Inl err \<Rightarrow> Inl err
      | Inr (data, ids, start_index, checkpoint_loaded) \<Rightarrow>
          Inr \<lparr>all_data = data, processed_ids = ids,
               self = slf\<lparr>stats := (stats slf)\<lparr>total_requested := length app_ids,
                                               successful := length data\<rparr>\<rparr>,
               world = w, saved = []\<rparr>)"

text \<open>Lines 224 to 269: one iteration, for the \<open>i\<close>-th identifier (counted from 1).\<close>

definition collect_bulk_step ::
  "env \<Rightarrow> string \<Rightarrow> nat \<Rightarrow> int \<Rightarrow> loop_state \<Rightarrow> py_error + loop_state" where
  "collect_bulk_step e output_prefix i app_id' s =
     (if app_id' \<in> processed_ids s then Inr s
      else
        let (player_data, w1) = get_player_count e (world s) app_id';
            st = stats (self s);
            s1 = (case player_data of
                    Some pd \<Rightarrow>
                      s\<lparr>all_data := all_data s @ [pd],
                        processed_ids := insert app_id' (processed_ids s),
                        self := (self s)\<lparr>stats := st\<lparr>successful := successful st + 1,
                           with_players := (if player_count pd > 0 then with_players st + 1
                                            else with_players st)\<rparr>\<rparr>,
                        world := w1\<rparr>
                  | None \<Rightarrow>
                      s\<lparr>self := (self s)\<lparr>stats := st\<lparr>failed := failed st + 1\<rparr>\<rparr>,
                        world := w1\<rparr>)
        in if checkpoint_interval (self s) = 0 then Inl ZeroDivisionError
           else if int i mod checkpoint_interval (self s) = 0 then
             Inr (s1\<lparr>world :=
                       save_processed_ids e (processed_ids s1) (processed_ids_file output_prefix)
                         (save_checkpoint e (all_data s1) (checkpoint_file output_prefix i)
                            (world s1)),
                     saved := saved s1 @
                       [(checkpoint_file output_prefix i, all_data s1, processed_ids s1)]\<rparr>)
           else Inr s1)"

text \<open>\<open>for i, app_id in enumerate(app_ids, 1)\<close>, entered at index \<open>i\<close>.\<close>

fun collect_bulk_loop ::
  "env \<Rightarrow> string \<Rightarrow> nat \<Rightarrow> int list \<Rightarrow> loop_state \<Rightarrow> py_error + loop_state" where
  "collect_bulk_loop e output_prefix i [] s = Inr s"
| "collect_bulk_loop e output_prefix i (a # rest) s =
     (case collect_bulk_step e output_prefix i a s of
        Inl err \<Rightarrow> Inl err
      | Inr s' \<Rightarrow> collect_bulk_loop e output_prefix (Suc i) rest s')"

text \<open>
  \<open>_print_final_stats\<close> divides by \<open>total_requested\<close> and by the duration of the run.
\<close>

definition print_final_stats :: "env \<Rightarrow> stats \<Rightarrow> py_error option" where
  "print_final_stats e st =
     (if total_requested st = 0 \<or> run_seconds e = 0 then Some ZeroDivisionError else None)"

text \<open>
  \<open>collect_bulk(app_ids, output_prefix, resume)\<close> returns \<open>all_data\<close>; the model returns
  with it the collector and the world as the call leaves them.
\<close>

definition collect_bulk ::
  "env \<Rightarrow> collector \<Rightarrow> player_world \<Rightarrow> int list \<Rightarrow> string \<Rightarrow> bool \<Rightarrow>
   py_error + (player_data list \<times> collector \<times> player_world)" where
  "collect_bulk e slf w app_ids output_prefix resume =
     (case collect_bulk_start slf w app_ids output_prefix resume of
        Inl err \<Rightarrow> Inl err
      | Inr s0 \<Rightarrow>
          (case collect_bulk_loop e output_prefix 1 app_ids s0 of
             Inl err \<Rightarrow> Inl err
           | Inr s \<Rightarrow>
               (case print_final_stats e (stats (self s)) of
                  Some err \<Rightarrow> Inl err
                | None \<Rightarrow> Inr (all_data s, self s, world s))))"

text \<open>
  \<open>save_to_json\<close> (the same in all three collectors) does not catch a failing write.
\<close>

definition save_to_json ::
  "env \<Rightarrow> 'r list \<Rightarrow> string \<Rightarrow> ('r, 'w) world \<Rightarrow> py_error + ('r, 'w) world" where
  "save_to_json e data filename w =
     (if writable e filename then Inr (w\<lparr>disk := (disk w)(filename \<mapsto> JsonList data)\<rparr>)
      else Inl OSError)"

text \<open>
  \<open>save_to_csv\<close> and \<open>save_to_excel\<close>: guarded by \<open>if data:\<close>. Every record has the
  three columns, so the column selection keeps them all. Rows are sorted by
  \<open>player_count\<close>, descending; the order among equal counts, which pandas' default sort
  does not fix, is the order of \<open>data\<close> here.
\<close>

definition save_to_csv ::
  "env \<Rightarrow> player_data list \<Rightarrow> string \<Rightarrow> player_world \<Rightarrow> py_error + player_world" where
  "save_to_csv e data filename w =
     (if data \<noteq> [] then
        let df = sort_key (\<lambda>r. - player_count r) data
        in if writable e filename then Inr (w\<lparr>disk := (disk w)(filename \<mapsto> CsvTable df)\<rparr>)
           else Inl OSError
      else Inr w)"

definition save_to_excel ::
  "env \<Rightarrow> player_data list \<Rightarrow> string \<Rightarrow> player_world \<Rightarrow> py_error + player_world" where
  "save_to_excel e data filename w =
     (if data \<noteq> [] then
        let df = sort_key (\<lambda>r. - player_count r) data
        in if writable e filename then Inr (w\<lparr>disk := (disk w)(filename \<mapsto> ExcelTable df)\<rparr>)
           else Inl OSError
      else Inr w)"

section \<open>steam_api_data_fixed.py: SteamRandomCollector\<close>

text \<open>
  The dictionary that \<open>get_game_details\<close> builds, and the entries that
  \<open>collect_single_game\<close> adds to it. Categories and genres are taken to carry a
  description string each, as the store's responses do.
\<close>

record game_details =
  details_app_id :: int
  details_type :: "string option"
  details_is_free :: bool
  details_categories :: "string list"
  details_genres :: "string list"
  details_price_jpy :: "real option"
  details_metacritic_score :: "int option"

record game_data = game_details +
  game_player_count :: "int option"
  game_total_achievements :: "nat option"
  game_collected_at :: string

text \<open>A row of the table that \<open>save_to_csv\<close> writes, in its column order.\<close>

record game_row =
  row_app_id :: int
  row_player_count :: "int option"
  row_type :: "string option"
  row_is_free :: bool
  row_categories :: string
  row_genres :: string
  row_price_jpy :: "real option"
  row_metacritic_score :: "int option"
  row_total_achievements :: "nat option"
  row_collected_at :: string

type_synonym game_world = "(game_data, game_row) world"

text \<open>
  \<open>get_player_count\<close> of \<open>SteamRandomCollector\<close> and \<open>SteamDataCollector\<close> returns the
  bare count.
\<close>

definition get_player_count_int ::
  "env \<Rightarrow> ('r, 'w) world \<Rightarrow> int \<Rightarrow> int option \<times> ('r, 'w) world" where
  "get_player_count_int e w app_id' =
     (current_players e (length (requests w)) app_id',
      w\<lparr>requests := requests w @ [CurrentPlayers app_id']\<rparr>)"

definition get_achievement_count ::
  "env \<Rightarrow> ('r, 'w) world \<Rightarrow> int \<Rightarrow> nat option \<times> ('r, 'w) world" where
  "get_achievement_count e w app_id' =
     (achievements e (length (requests w)) app_id',
      w\<lparr>requests := requests w @ [Achievements app_id']\<rparr>)"

definition get_game_details ::
  "env \<Rightarrow> ('r, 'w) world \<Rightarrow> int \<Rightarrow> game_details option \<times> ('r, 'w) world" where
  "get_game_details e w app_id' =
     (let w' = w\<lparr>requests := requests w @ [AppDetails app_id']\<rparr>
      in case appdetails e (length (requests w)) app_id' of
           None \<Rightarrow> (None, w')
         | Some details \<Rightarrow>
             (Some \<lparr>details_app_id = app_id',
                    details_type = api_type details,
                    details_is_free = api_is_free details,
                    details_categories = api_categories details,
                    details_genres = api_genres details,
                    details_price_jpy =
                      (case api_price_overview details of
                         Some final \<Rightarrow> Some ((case final of Some f \<Rightarrow> f | None \<Rightarrow> 0) / 100)
                       | None \<Rightarrow> if api_is_free details then Some 0 else None),
                    details_metacritic_score =
                      (case api_metacritic details of Some score \<Rightarrow> score | None \<Rightarrow> None)\<rparr>,
              w'))"

text \<open>
  \<open>collect_single_game\<close>: the details first; the player count and the achievements are
  requested only for an application of type \<open>game\<close>.
\<close>

definition collect_single_game ::
  "env \<Rightarrow> stats \<Rightarrow> game_world \<Rightarrow> int \<Rightarrow> game_data option \<times> stats \<times> game_world" where
  "collect_single_game e st w app_id' =
     (let (game_data, w1) = get_game_details e w app_id'
      in case game_data of
           None \<Rightarrow> (None, st, w1)
         | Some details \<Rightarrow>
             if details_type details \<noteq> Some ''game'' then (None, st, w1)
             else
               let (player_count', w2) = get_player_count_int e w1 app_id';
                   st1 = (case player_count' of
                            Some c \<Rightarrow> if c > 0 then st\<lparr>with_players := with_players st + 1\<rparr>
                                      else st
                          | None \<Rightarrow> st);
                   (achievement_count, w3) = get_achievement_count e w2 app_id';
                   st2 = (case details_metacritic_score details of
                            Some score \<Rightarrow>
                              if score \<noteq> 0 then st1\<lparr>with_metacritic := with_metacritic st1 + 1\<rparr>
                              else st1
                          | None \<Rightarrow> st1)
               in (Some (game_details.extend details
                      \<lparr>game_player_count = player_count',
                       game_total_achievements = achievement_count,
                       game_collected_at = now_isoformat e (length (requests w3))\<rparr>),
                   st2, w3))"

text \<open>The checkpoint name of this collector has a blank before \<open>json\<close>, as in the source.\<close>

definition checkpoint_file_random :: "string \<Rightarrow> nat \<Rightarrow> string" where
  "checkpoint_file_random output_prefix i =
     output_prefix @ ''_checkpoint_'' @ str_of_nat i @ ''. json''"

record random_state =
  random_all_data :: "game_data list"
  random_self :: collector
  random_world :: game_world

definition collect_bulk_random_step ::
  "env \<Rightarrow> string \<Rightarrow> nat \<Rightarrow> int \<Rightarrow> random_state \<Rightarrow> py_error + random_state" where
  "collect_bulk_random_step e output_prefix i app_id' s =
     (let (game_data, st, w1) = collect_single_game e (stats (random_self s)) (random_world s) app_id';
          s1 = (case game_data of
                  Some gd \<Rightarrow>
                    s\<lparr>random_all_data := random_all_data s @ [gd],
                      random_self := (random_self s)\<lparr>stats := st\<lparr>successful := successful st + 1\<rparr>\<rparr>,
                      random_world := w1\<rparr>
                | None \<Rightarrow>
                    s\<lparr>random_self := (random_self s)\<lparr>stats := st\<lparr>failed := failed st + 1\<rparr>\<rparr>,
                      random_world := w1\<rparr>)
      in if checkpoint_interval (random_self s) = 0 then Inl ZeroDivisionError
         else if int i mod checkpoint_interval (random_self s) = 0 then
           Inr (s1\<lparr>random_world :=
                     save_checkpoint e (random_all_data s1) (checkpoint_file_random output_prefix i)
                       (random_world s1)\<rparr>)
         else Inr s1)"

fun collect_bulk_random_loop ::
  "env \<Rightarrow> string \<Rightarrow> nat \<Rightarrow> int list \<Rightarrow> random_state \<Rightarrow> py_error + random_state" where
  "collect_bulk_random_loop e output_prefix i [] s = Inr s"
| "collect_bulk_random_loop e output_prefix i (a # rest) s =
     (case collect_bulk_random_step e output_prefix i a s of
        Inl err \<Rightarrow> Inl err
      | Inr s' \<Rightarrow> collect_bulk_random_loop e output_prefix (Suc i) rest s')"

text \<open>
  \<open>collect_bulk(app_ids, output_prefix)\<close>: only \<open>total_requested\<close> is reset; the other
  counters go on from their values.
\<close>

definition collect_bulk_random ::
  "env \<Rightarrow> collector \<Rightarrow> game_world \<Rightarrow> int list \<Rightarrow> string \<Rightarrow>
   py_error + (game_data list \<times> collector \<times> game_world)" where
  "collect_bulk_random e slf w app_ids output_prefix =
     (let s0 = \<lparr>random_all_data = [],
                random_self = slf\<lparr>stats := (stats slf)\<lparr>total_requested := length app_ids\<rparr>\<rparr>,
                random_world = w\<rparr>
      in case collect_bulk_random_loop e output_prefix 1 app_ids s0 of
           Inl err \<Rightarrow> Inl err
         | Inr s \<Rightarrow>
             (case print_final_stats e (stats (random_self s)) of
                Some err \<Rightarrow> Inl err
              | None \<Rightarrow> Inr (random_all_data s, random_self s, random_world s)))"

text \<open>\<open>'|'.join(...)\<close>.\<close>

fun join_bar :: "string list \<Rightarrow> string" where
  "join_bar [] = []"
| "join_bar [x] = x"
| "join_bar (x # y # rest) = x @ ''|'' @ join_bar (y # rest)"

definition game_row_of :: "game_data \<Rightarrow> game_row" where
  "game_row_of game =
     \<lparr>row_app_id = details_app_id game,
      row_player_count = game_player_count game,
      row_type = details_type game,
      row_is_free = details_is_free game,
      row_categories = join_bar (details_categories game),
      row_genres = join_bar (details_genres game),
      row_price_jpy = details_price_jpy game,
      row_metacritic_score = details_metacritic_score game,
      row_total_achievements = game_total_achievements game,
      row_collected_at = game_collected_at game\<rparr>"

definition save_to_csv_random ::
  "env \<Rightarrow> game_data list \<Rightarrow> string \<Rightarrow> game_world \<Rightarrow> py_error + game_world" where
  "save_to_csv_random e data filename w =
     (if data \<noteq> [] then
        let data_for_csv = map game_row_of data
        in if writable e filename
           then Inr (w\<lparr>disk := (disk w)(filename \<mapsto> CsvTable data_for_csv)\<rparr>)
           else Inl OSError
      else Inr w)"

definition save_to_excel_random ::
  "env \<Rightarrow> game_data list \<Rightarrow> string \<Rightarrow> game_world \<Rightarrow> py_error + game_world" where
  "save_to_excel_random e data filename w =
     (if data \<noteq> [] then
        let data_for_excel = map game_row_of data
        in if writable e filename
           then Inr (w\<lparr>disk := (disk w)(filename \<mapsto> ExcelTable data_for_excel)\<rparr>)
           else Inl OSError
      else Inr w)"

section \<open>steam_api_revews.py: SteamDataCollector\<close>

record simple_data =
  simple_app_id :: int
  simple_player_count :: "int option"
  simple_total_reviews :: "int option"
  simple_positive_reviews :: "int option"
  simple_negative_reviews :: "int option"
  simple_collected_at :: string

type_synonym simple_world = "(simple_data, simple_data) world"

definition is_game :: "env \<Rightarrow> ('r, 'w) world \<Rightarrow> int \<Rightarrow> bool \<times> ('r, 'w) world" where
  "is_game e w app_id' =
     (case appdetails e (length (requests w)) app_id' of
        Some details \<Rightarrow> api_type details = Some ''game''
      | None \<Rightarrow> False,
      w\<lparr>requests := requests w @ [AppDetails app_id']\<rparr>)"

definition get_review_count ::
  "env \<Rightarrow> ('r, 'w) world \<Rightarrow> int \<Rightarrow> query_summary option \<times> ('r, 'w) world" where
  "get_review_count e w app_id' =
     (appreviews e (length (requests w)) app_id',
      w\<lparr>requests := requests w @ [AppReviews app_id']\<rparr>)"

definition collect_single_game_simple ::
  "env \<Rightarrow> simple_world \<Rightarrow> int \<Rightarrow> simple_data option \<times> simple_world" where
  "collect_single_game_simple e w app_id' =
     (let (game, w1) = is_game e w app_id'
      in if \<not> game then (None, w1)
         else
           let (player_count', w2) = get_player_count_int e w1 app_id';
               (review_data, w3) = get_review_count e w2 app_id'
           in (Some \<lparr>simple_app_id = app_id',
                     simple_player_count = player_count',
                     simple_total_reviews = map_option summary_total_reviews review_data,
                     simple_positive_reviews = map_option summary_total_positive review_data,
                     simple_negative_reviews = map_option summary_total_negative review_data,
                     simple_collected_at = now_isoformat e (length (requests w3))\<rparr>,
               w3))"

text \<open>
  \<open>collect_bulk(app_ids)\<close> returns \<open>all_data\<close>; \<open>successful\<close> and \<open>failed\<close> are local
  counters that it logs at the end. The state of the loop is
  (\<open>all_data\<close>, \<open>successful\<close>, \<open>failed\<close>, world).
\<close>

fun collect_bulk_simple_loop ::
  "env \<Rightarrow> int list \<Rightarrow> simple_data list \<times> nat \<times> nat \<times> simple_world \<Rightarrow>
   simple_data list \<times> nat \<times> nat \<times> simple_world" where
  "collect_bulk_simple_loop e [] s = s"
| "collect_bulk_simple_loop e (a # rest) (data, successful', failed', w) =
     (let (game_data, w1) = collect_single_game_simple e w a
      in case game_data of
           Some gd \<Rightarrow> collect_bulk_simple_loop e rest (data @ [gd], successful' + 1, failed', w1)
         | None \<Rightarrow> collect_bulk_simple_loop e rest (data, successful', failed' + 1, w1))"

definition collect_bulk_simple ::
  "env \<Rightarrow> simple_world \<Rightarrow> int list \<Rightarrow> simple_data list \<times> nat \<times> nat \<times> simple_world" where
  "collect_bulk_simple e w app_ids = collect_bulk_simple_loop e app_ids ([], 0, 0, w)"

section \<open>Auxiliary notions\<close>

text \<open>
  The records that the accumulation loop of \<open>SteamPlayerCountCollector.collect_bulk\<close>
  appends when every fetch of an identifier \<open>a\<close> answers \<open>g a\<close> and the identifiers in
  \<open>P\<close> are already processed. Used to compare runs.
\<close>

fun new_records :: "(int \<Rightarrow> player_data option) \<Rightarrow> int set \<Rightarrow> int list \<Rightarrow> player_data list" where
  "new_records g P [] = []"
| "new_records g P (a # rest) =
     (if a \<in> P then new_records g P rest
      else case g a of
             None \<Rightarrow> new_records g P rest
           | Some r \<Rightarrow> r # new_records g (insert a P) rest)"

text \<open>What holds of the accumulator and the processed-ID set, separately or in a checkpoint.\<close>

definition accumulator_ok :: "bool \<Rightarrow> player_data list \<Rightarrow> int set \<Rightarrow> bool" where
  "accumulator_ok unique data ids \<longleftrightarrow>
     ids = set (map app_id data) \<and> (unique \<longrightarrow> distinct (map app_id data))"

text \<open>
  The checkpoint files of a job as \<open>_save_checkpoint\<close> leaves them: under every checkpoint
  name of the prefix there is no file, a file that fails to load, or a list of records
  with at most one record per identifier. (An empty list of identifiers is the empty JSON
  list; a table is not JSON and fails to load.) The disk without files is such a disk,
  and \<open>collect_bulk\<close> keeps a disk so.
\<close>

definition checkpoints_ok ::
  "(string \<Rightarrow> (player_data, player_data) file_content option) \<Rightarrow> string \<Rightarrow> bool" where
  "checkpoints_ok fs output_prefix \<longleftrightarrow>
     (\<forall>i. case fs (checkpoint_file output_prefix i) of
            None \<Rightarrow> True
          | Some (JsonList records) \<Rightarrow> distinct (map app_id records)
          | Some (JsonIds ids) \<Rightarrow> ids = {}
          | Some _ \<Rightarrow> True)"

text \<open>
  The details request for \<open>a\<close>, issued in world \<open>w\<close>, fails, returns no data, or reports
  a type other than \<open>game\<close>.
\<close>

definition not_a_game :: "env \<Rightarrow> ('r, 'w) world \<Rightarrow> int \<Rightarrow> bool" where
  "not_a_game e w a =
     (case appdetails e (length (requests w)) a of
        None \<Rightarrow> True
      | Some details \<Rightarrow> api_type details \<noteq> Some ''game'')"

subsection \<open>A small world for concrete runs\<close>

text \<open>
  Identifier 20 has no player count, identifier 30 no store page, identifier 40 is
  downloadable content; the clock stands still.
\<close>

definition example_env :: env where
  "example_env =
     \<lparr>current_players = (\<lambda>t a. if a = 20 then None else Some (a div 10)),
      appdetails = (\<lambda>t a. if a = 30 then None
         else Some \<lparr>api_type = Some (if a = 40 then ''dlc'' else ''game''), api_is_free = True,
                    api_categories = [''Single-player''], api_genres = [''Indie''],
                    api_price_overview = None, api_metacritic = None\<rparr>),
      achievements = (\<lambda>t a. Some 3),
      appreviews = (\<lambda>t a. None),
      now_isoformat = (\<lambda>t. ''2026-01-15T15:00:16''),
      run_seconds = 1,
      writable = (\<lambda>f. True)\<rparr>"

definition empty_world :: "('r, 'w) world" where
  "empty_world = \<lparr>disk = (\<lambda>f. None), requests = []\<rparr>"

definition new_collector :: "int \<Rightarrow> collector" where
  "new_collector interval =
     \<lparr>checkpoint_interval = interval,
      stats = \<lparr>total_requested = 0, successful = 0, failed = 0, with_players = 0,
               with_metacritic = 0\<rparr>\<rparr>"

definition example_record :: "int \<Rightarrow> int \<Rightarrow> player_data" where
  "example_record a c = \<lparr>app_id = a, player_count = c, collected_at = ''2026-01-15T15:00:16''\<rparr>"

definition example_game :: "int \<Rightarrow> game_data" where
  "example_game a =
     \<lparr>details_app_id = a, details_type = Some ''game'', details_is_free = True,
      details_categories = [''Single-player'', ''Co-op''], details_genres = [''Indie''],
      details_price_jpy = Some 0, details_metacritic_score = None,
      game_player_count = Some (a div 10), game_total_achievements = Some 3,
      game_collected_at = ''2026-01-15T15:00:16''\<rparr>"

section \<open>Properties of the analysis scripts\<close>

subsection \<open>Arithmetic of means and regression\<close>

lemma np_mean_affine:
  assumes "x \<noteq> []"
  shows "np_mean (map (\<lambda>u. c + m * u) x) = c + m * np_mean x"
proof -
  from assms have n: "real (length x) \<noteq> 0" by simp
  have "sum_list (map (\<lambda>u. c + m * u) x) = c * real (length x) + m * sum_list x"
    by (induction x) (simp_all add: algebra_simps)
  then show ?thesis using n by (simp add: np_mean_def field_simps)
qed

lemma np_mean_scale: "np_mean (map (\<lambda>u. k * f u) x) = k * np_mean (map f x)"
proof -
  have "sum_list (map (\<lambda>u. k * f u) x) = k * sum_list (map f x)"
    by (induction x) (simp_all add: algebra_simps)
  then show ?thesis by (simp add: np_mean_def)
qed

lemma np_mean_squares_nonneg: "0 \<le> np_mean (map (\<lambda>u. (f u)\<^sup>2) (x :: real list))"
proof -
  have "0 \<le> sum_list (map (\<lambda>u. (f u)\<^sup>2) x)"
    by (induction x) simp_all
  then show ?thesis by (simp add: np_mean_def)
qed

lemma zip_map_self: "zip x (map f x) = map (\<lambda>u. (u, f u)) x"
  by (induction x) simp_all

text \<open>Ordinates that are an affine, non-constant function of the abscissae fit exactly.\<close>

lemma linregress_affine:
  fixes x :: "real list"
  assumes ne: "x \<noteq> []"
    and sx: "np_mean (map (\<lambda>a. (a - np_mean x)\<^sup>2) x) \<noteq> 0"
    and m: "m \<noteq> 0"
  shows "\<exists>r. linregress x (map (\<lambda>u. c + m * u) x) = Some (m, c, r) \<and> r\<^sup>2 = 1"
proof -
  let ?y = "map (\<lambda>u. c + m * u) x"
  let ?sx = "np_mean (map (\<lambda>a. (a - np_mean x)\<^sup>2) x)"
  have my: "np_mean ?y = c + m * np_mean x" using ne by (rule np_mean_affine)
  have sxpos: "0 < ?sx"
    using sx np_mean_squares_nonneg[of "\<lambda>a. a - np_mean x" x] by linarith
  have "map (\<lambda>b. (b - np_mean ?y)\<^sup>2) ?y = map (\<lambda>u. m\<^sup>2 * (u - np_mean x)\<^sup>2) x"
    unfolding my by (simp add: power2_eq_square algebra_simps)
  then have sy: "np_mean (map (\<lambda>b. (b - np_mean ?y)\<^sup>2) ?y) = m\<^sup>2 * ?sx"
    by (simp only: np_mean_scale)
  have "map (\<lambda>(a, b). (a - np_mean x) * (b - np_mean ?y)) (zip x ?y)
          = map (\<lambda>u. m * (u - np_mean x)\<^sup>2) x"
    unfolding my zip_map_self by (simp add: o_def power2_eq_square algebra_simps)
  then have sxy:
    "np_mean (map (\<lambda>(a, b). (a - np_mean x) * (b - np_mean ?y)) (zip x ?y)) = m * ?sx"
    by (simp only: np_mean_scale)
  have synz: "m\<^sup>2 * ?sx \<noteq> 0" using m sx by simp
  have lr: "linregress x ?y =
      Some (m * ?sx / ?sx, np_mean ?y - m * ?sx / ?sx * np_mean x,
            m * ?sx / sqrt (?sx * (m\<^sup>2 * ?sx)))"
    using ne sx synz unfolding linregress_def Let_def sy sxy by simp
  have "(m * ?sx / sqrt (?sx * (m\<^sup>2 * ?sx)))\<^sup>2 = (m * ?sx)\<^sup>2 / (?sx * (m\<^sup>2 * ?sx))"
    using sxpos by (simp only: power_divide real_sqrt_pow2) simp
  also have "\<dots> = 1" using sx m by (simp add: power2_eq_square)
  finally have "(m * ?sx / sqrt (?sx * (m\<^sup>2 * ?sx)))\<^sup>2 = 1" .
  with lr sx my show ?thesis by simp
qed

text \<open>Decimal logarithms of the sample values and ranks that occur below.\<close>

lemma log10_geometric:
  "log 10 1000 = 3" "log 10 500 = 3 - log 10 2" "log 10 250 = 3 - 2 * log 10 2"
  "log 10 125 = 3 - 3 * log 10 2" "log 10 4 = 2 * log 10 2"
proof -
  have e3: "log 10 1000 = 3"
    using log_nat_power[of 10 10 3] by simp
  show "log 10 1000 = 3" by (rule e3)
  have "log 10 500 = log 10 (1000 / 2)" by simp
  also have "\<dots> = 3 - log 10 2" by (simp only: log_divide_pos e3)
  finally show "log 10 500 = 3 - log 10 2" .
  have p2: "log 10 4 = 2 * log 10 2" using log_nat_power[of 2 10 2] by simp
  show "log 10 4 = 2 * log 10 2" by (rule p2)
  have p3: "log 10 8 = 3 * log 10 2" using log_nat_power[of 2 10 3] by simp
  have "log 10 250 = log 10 (1000 / 4)" by simp
  also have "\<dots> = 3 - 2 * log 10 2" using log_divide[of 10 1000 4] e3 p2 by simp
  finally show "log 10 250 = 3 - 2 * log 10 2" .
  have "log 10 125 = log 10 (1000 / 8)" by simp
  also have "\<dots> = 3 - 3 * log 10 2" using log_divide[of 10 1000 8] e3 p3 by simp
  finally show "log 10 125 = 3 - 3 * log 10 2" .
qed

lemma log10_2_pos: "0 < log 10 2"
  by simp

text \<open>
  The deviations of the geometric sample in log-log space, with \<open>a = log10 2\<close> and
  \<open>b = log10 3\<close> left symbolic.
\<close>

lemma geometric_deviations:
  fixes a b :: real
  defines "x \<equiv> [0, a, b, 2 * a]" and "y \<equiv> [3, 3 - a, 3 - 2 * a, 3 - 3 * a]"
  shows "np_mean (map (\<lambda>u. (u - np_mean x)\<^sup>2) x) = (11 * a\<^sup>2 - 6 * a * b + 3 * b\<^sup>2) / 16"
    and "np_mean (map (\<lambda>u. (u - np_mean y)\<^sup>2) y) = 5 * a\<^sup>2 / 4"
    and "np_mean (map (\<lambda>(u, v). (u - np_mean x) * (v - np_mean y)) (zip x y))
           = - a * (5 * a + b) / 8"
  unfolding x_def y_def np_mean_def
  by (simp_all add: power2_eq_square field_simps)

lemma rank_spread_pos:
  fixes a b :: real
  assumes "0 < a"
  shows "0 < 11 * a\<^sup>2 - 6 * a * b + 3 * b\<^sup>2"
proof -
  have "11 * a\<^sup>2 - 6 * a * b + 3 * b\<^sup>2 = 3 * (b - a)\<^sup>2 + 8 * a\<^sup>2"
    by (simp add: power2_eq_square algebra_simps)
  moreover have "0 < 8 * a\<^sup>2" using assms by simp
  moreover have "0 \<le> 3 * (b - a)\<^sup>2" by simp
  ultimately show ?thesis by linarith
qed

lemma geometric_fit:
  fixes a b :: real
  assumes a: "0 < a"
  defines "D \<equiv> 11 * a\<^sup>2 - 6 * a * b + 3 * b\<^sup>2"
  shows "\<exists>r. linregress [0, a, b, 2 * a] [3, 3 - a, 3 - 2 * a, 3 - 3 * a]
            = Some (- (2 * a * (5 * a + b) / D),
                    3 + 2 * a * (5 * a + b) / D * ((3 * a + b) / 4) - 3 * a / 2, r)
          \<and> r\<^sup>2 = (5 * a + b)\<^sup>2 / (5 * D)"
proof -
  have D: "0 < D" unfolding D_def using a by (rule rank_spread_pos)
  let ?x = "[0, a, b, 2 * a]" and ?y = "[3, 3 - a, 3 - 2 * a, 3 - 3 * a]"
  let ?ssxm = "D / 16" and ?ssym = "5 * a\<^sup>2 / 4" and ?ssxym = "- a * (5 * a + b) / 8"
  have ssym: "0 < ?ssym" using a by simp
  have ssxm: "0 < ?ssxm" using D by simp
  have mx: "np_mean ?x = (3 * a + b) / 4" and my: "np_mean ?y = 3 - 3 * a / 2"
    by (simp_all add: np_mean_def field_simps)
  have sl: "?ssxym / ?ssxm = - (2 * a * (5 * a + b) / D)"
    using D by (simp add: field_simps)
  have "linregress ?x ?y =
      Some (?ssxym / ?ssxm, np_mean ?y - ?ssxym / ?ssxm * np_mean ?x,
            ?ssxym / sqrt (?ssxm * ?ssym))"
    using ssym ssxm unfolding linregress_def Let_def geometric_deviations D_def
    by simp
  moreover have "(?ssxym / sqrt (?ssxm * ?ssym))\<^sup>2 = (5 * a + b)\<^sup>2 / (5 * D)"
  proof -
    have "0 \<le> ?ssxm * ?ssym" using ssym ssxm by simp
    then have "(?ssxym / sqrt (?ssxm * ?ssym))\<^sup>2 = ?ssxym\<^sup>2 / (?ssxm * ?ssym)"
      by (simp only: power_divide real_sqrt_pow2)
    also have "\<dots> = (5 * a + b)\<^sup>2 / (5 * D)"
      using a D by (simp add: power2_eq_square field_simps)
    finally show ?thesis .
  qed
  ultimately show ?thesis
    unfolding sl mx my by (simp add: algebra_simps)
qed

text \<open>Whatever the two logarithms are, the fit of the geometric sample stays below 0.97.\<close>

lemma geometric_r_squared_bound:
  fixes a b :: real
  assumes a: "0 < a"
  shows "(5 * a + b)\<^sup>2 / (5 * (11 * a\<^sup>2 - 6 * a * b + 3 * b\<^sup>2)) < 97 / 100"
proof -
  let ?D = "11 * a\<^sup>2 - 6 * a * b + 3 * b\<^sup>2"
  have D: "0 < ?D" using a by (rule rank_spread_pos)
  have "485 * ?D - 100 * (5 * a + b)\<^sup>2
          = ((5670 * a - 3910 * b)\<^sup>2 + 77600 * b\<^sup>2) / 11340"
    by (simp add: power2_eq_square algebra_simps)
  moreover have "0 < (5670 * a - 3910 * b)\<^sup>2 + 77600 * b\<^sup>2"
  proof (cases "b = 0")
    case True
    then show ?thesis using a by simp
  next
    case False
    then have "0 < 77600 * b\<^sup>2" by simp
    moreover have "0 \<le> (5670 * a - 3910 * b)\<^sup>2" by simp
    ultimately show ?thesis by linarith
  qed
  ultimately have "0 < 485 * ?D - 100 * (5 * a + b)\<^sup>2" by simp
  then have "100 * (5 * a + b)\<^sup>2 < 97 * (5 * ?D)" by linarith
  then show ?thesis using D by (simp add: field_simps)
qed


subsection \<open>The two samples of the specification in log-log space\<close>

lemma log_ranks4:
  "np_log10 (np_arange1 (Suc (Suc (Suc (Suc 0))))) = Some [0, log 10 2, log 10 3, 2 * log 10 2]"
  by (simp add: np_log10_def np_arange1_def upt_rec log10_geometric)

lemma log_ranks3:
  "np_log10 (np_arange1 (Suc (Suc (Suc 0)))) = Some [0, log 10 2, log 10 3]"
  by (simp add: np_log10_def np_arange1_def upt_rec)

lemma log_values_geometric:
  "np_log10 [1000, 500, 250, 125]
     = Some [3, 3 - log 10 2, 3 - 2 * log 10 2, 3 - 3 * log 10 2]"
  by (simp add: np_log10_def log10_geometric)

lemma log10_harmonic:
  "log 10 600 = log 10 1200 - log 10 2" "log 10 400 = log 10 1200 - log 10 3"
  "log 10 300 = log 10 1200 - 2 * log 10 2"
proof -
  have "log 10 600 = log 10 (1200 / 2)" by simp
  also have "\<dots> = log 10 1200 - log 10 2" by (simp only: log_divide_pos)
  finally show "log 10 600 = log 10 1200 - log 10 2" .
  have "log 10 400 = log 10 (1200 / 3)" by simp
  also have "\<dots> = log 10 1200 - log 10 3" by (simp only: log_divide_pos)
  finally show "log 10 400 = log 10 1200 - log 10 3" .
  have "log 10 300 = log 10 (1200 / 4)" by simp
  also have "\<dots> = log 10 1200 - 2 * log 10 2" using log_divide[of 10 1200 4] by (simp add: log10_geometric)
  finally show "log 10 300 = log 10 1200 - 2 * log 10 2" .
qed

lemma log_values_harmonic:
  "np_log10 [1200, 600, 400, 300]
     = Some [log 10 1200, log 10 1200 - log 10 2, log 10 1200 - log 10 3,
             log 10 1200 - 2 * log 10 2]"
  by (simp add: np_log10_def log10_harmonic)

lemma ranks4_spread:
  "np_mean (map (\<lambda>a. (a - np_mean [0, log 10 2, log 10 3, 2 * log 10 2])\<^sup>2) [0, log 10 2, log 10 3, 2 * log 10 2]) \<noteq> 0"
proof -
  have "11 * (log 10 2)\<^sup>2 - 6 * log 10 2 * log 10 3 + 3 * (log 10 3)\<^sup>2 \<noteq> 0"
    using rank_spread_pos[OF log10_2_pos, of "log 10 3"] by linarith
  then show ?thesis unfolding geometric_deviations by simp
qed

lemma rank3_spread_pos:
  fixes a b :: real
  assumes "0 < a"
  shows "np_mean (map (\<lambda>u. (u - np_mean [0, a, b])\<^sup>2) [0, a, b]) \<noteq> 0"
proof -
  have eq: "np_mean (map (\<lambda>u. (u - np_mean [0, a, b])\<^sup>2) [0, a, b])
      = (2 * (b - a / 2)\<^sup>2 + 3 * a\<^sup>2 / 2) / 9"
    unfolding np_mean_def by (simp add: power2_eq_square field_simps)
  have "0 < 3 * a\<^sup>2 / 2" using assms by simp
  moreover have "0 \<le> 2 * (b - a / 2)\<^sup>2" by simp
  ultimately have "0 < 2 * (b - a / 2)\<^sup>2 + 3 * a\<^sup>2 / 2" by linarith
  then show ?thesis unfolding eq by simp
qed

lemma ranks3_spread:
  "np_mean (map (\<lambda>a. (a - np_mean [0, log 10 2, log 10 3])\<^sup>2) [0, log 10 2, log 10 3]) \<noteq> 0"
  using log10_2_pos by (rule rank3_spread_pos)

lemma linregress_defined:
  "x \<noteq> [] \<Longrightarrow> np_mean (map (\<lambda>a. (a - np_mean x)\<^sup>2) x) \<noteq> 0 \<Longrightarrow> linregress x y \<noteq> None"
  by (simp add: linregress_def Let_def)

lemma power_law_geometric:
  "\<exists>al r2. calculate_power_law [1000, 500, 250, 125] = Inr (Some al, Some r2, Some 4)
     \<and> r2 = (5 * log 10 2 + log 10 3)\<^sup>2
              / (5 * (11 * (log 10 2)\<^sup>2 - 6 * log 10 2 * log 10 3 + 3 * (log 10 3)\<^sup>2))
     \<and> r2 < 97 / 100"
proof -
  let ?D = "11 * (log 10 2)\<^sup>2 - 6 * log 10 2 * log 10 3 + 3 * (log 10 3)\<^sup>2"
  obtain r i where lr: "linregress [0, log 10 2, log 10 3, 2 * log 10 2]
        [3, 3 - log 10 2, 3 - 2 * log 10 2, 3 - 3 * log 10 2]
     = Some (- (2 * log 10 2 * (5 * log 10 2 + log 10 3) / ?D), i, r)"
    and r: "r\<^sup>2 = (5 * log 10 2 + log 10 3)\<^sup>2 / (5 * ?D)"
    using geometric_fit[OF log10_2_pos, of "log 10 3"] by blast
  have "calculate_power_law [1000, 500, 250, 125]
      = Inr (Some (2 * log 10 2 * (5 * log 10 2 + log 10 3) / ?D), Some (r\<^sup>2), Some 4)"
    unfolding calculate_power_law_def Let_def
    by (simp add: log_ranks4 log_values_geometric lr)
  then show ?thesis
    using r geometric_r_squared_bound[OF log10_2_pos, of "log 10 3"] by simp
qed

lemma gini_geometric: "gini [1000, 500, 250, 125] = Inr (23 / 60)"
  by (simp add: gini_def np_arange1_def upt_rec)

lemma metrics_geometric:
  "\<exists>m. calculate_power_law_metrics [1000, 500, 250, 125] = Inr m
     \<and> r_squared m = (5 * log 10 2 + log 10 3)\<^sup>2
              / (5 * (11 * (log 10 2)\<^sup>2 - 6 * log 10 2 * log 10 3 + 3 * (log 10 3)\<^sup>2))
     \<and> r_squared m < 97 / 100"
proof -
  let ?D = "11 * (log 10 2)\<^sup>2 - 6 * log 10 2 * log 10 3 + 3 * (log 10 3)\<^sup>2"
  obtain r i where lr: "linregress [0, log 10 2, log 10 3, 2 * log 10 2]
        [3, 3 - log 10 2, 3 - 2 * log 10 2, 3 - 3 * log 10 2]
     = Some (- (2 * log 10 2 * (5 * log 10 2 + log 10 3) / ?D), i, r)"
    and r: "r\<^sup>2 = (5 * log 10 2 + log 10 3)\<^sup>2 / (5 * ?D)"
    using geometric_fit[OF log10_2_pos, of "log 10 3"] by blast
  note g = gini_geometric
  have "calculate_power_law_metrics [1000, 500, 250, 125]
      = Inr \<lparr>alpha = 2 * log 10 2 * (5 * log 10 2 + log 10 3) / ?D, r_squared = r\<^sup>2,
             gini_coefficient = 23 / 60, slope = - (2 * log 10 2 * (5 * log 10 2 + log 10 3) / ?D),
             intercept = i\<rparr>"
    unfolding calculate_power_law_metrics_def Let_def
    by (simp add: log_ranks4 log_values_geometric lr g)
  then show ?thesis
    using r geometric_r_squared_bound[OF log10_2_pos, of "log 10 3"] by simp
qed

lemma power_law_harmonic:
  "calculate_power_law [1200, 600, 400, 300] = Inr (Some 1, Some 1, Some 4)"
proof -
  let ?x = "[0, log 10 2, log 10 3, 2 * log 10 2]"
  obtain r where lr: "linregress ?x [log 10 1200, log 10 1200 - log 10 2, log 10 1200 - log 10 3,
             log 10 1200 - 2 * log 10 2] = Some (- 1, log 10 1200, r)"
    and r: "r\<^sup>2 = 1"
    using linregress_affine[OF _ ranks4_spread, of "- 1" "log 10 1200"] by auto
  show ?thesis
    unfolding calculate_power_law_def Let_def
    by (simp add: log_ranks4 log_values_harmonic lr r)
qed


lemma log_values_decades: "np_log10 [100, 10, 1] = Some [2, 1, 0]"
proof -
  have "log 10 100 = 2" using log_nat_power[of 10 10 2] by simp
  then show ?thesis by (simp add: np_log10_def)
qed

lemma log_values_uniform: "np_log10 [5, 5, 5, 5] = Some [log 10 5, log 10 5, log 10 5, log 10 5]"
  by (simp add: np_log10_def)

lemma gini_decades: "gini [100, 10, 1] = Inr (22 / 37)"
  by (simp add: gini_def np_arange1_def upt_rec)

lemma gini_uniform: "gini [5, 5, 5, 5] = Inr 0"
  by (simp add: gini_def np_arange1_def upt_rec)

lemma metrics_gini_value:
  assumes "np_log10 (np_arange1 (length data)) = Some lx"
    and "np_log10 (rev (sort data)) = Some ly"
    and "linregress lx ly \<noteq> None"
    and "gini data = Inr g"
  shows "map_sum id gini_coefficient (calculate_power_law_metrics data) = Inr g"
  using assms unfolding calculate_power_law_metrics_def Let_def
  by (auto split: option.splits prod.splits)

lemma metrics_gini_decades:
  "map_sum id gini_coefficient (calculate_power_law_metrics [100, 10, 1]) = Inr (22 / 37)"
proof (rule metrics_gini_value)
  show "np_log10 (np_arange1 (length [100, 10, 1 :: real])) = Some [0, log 10 2, log 10 3]"
    using log_ranks3 by simp
  show "np_log10 (rev (sort [100, 10, 1])) = Some [2, 1, 0]"
    using log_values_decades by simp
  show "linregress [0, log 10 2, log 10 3] [2, 1, 0] \<noteq> None"
    using ranks3_spread by (intro linregress_defined) simp_all
  show "gini [100, 10, 1] = Inr (22 / 37)" by (rule gini_decades)
qed

lemma metrics_gini_uniform:
  "map_sum id gini_coefficient (calculate_power_law_metrics [5, 5, 5, 5]) = Inr 0"
proof (rule metrics_gini_value)
  show "np_log10 (np_arange1 (length [5, 5, 5, 5 :: real]))
          = Some [0, log 10 2, log 10 3, 2 * log 10 2]"
    using log_ranks4 by simp
  show "np_log10 (rev (sort [5, 5, 5, 5])) = Some [log 10 5, log 10 5, log 10 5, log 10 5]"
    using log_values_uniform by simp
  show "linregress [0, log 10 2, log 10 3, 2 * log 10 2] [log 10 5, log 10 5, log 10 5, log 10 5]
          \<noteq> None"
    using ranks4_spread by (intro linregress_defined) simp_all
  show "gini [5, 5, 5, 5] = Inr 0" by (rule gini_uniform)
qed

subsection \<open>Claims about the analysis scripts\<close>

text \<open>
  Claim C4, as stated: for the sample \<open>[1000, 500, 250, 125]\<close> the rank-size procedure
  (sort descending, ranks 1..n, regress log10(value) on log10(rank)) yields \<open>R\<^sup>2 = 1.0\<close>.
  This fails: the sample is geometric, so its logarithm is affine in the rank, not in the
  logarithm of the rank. Neither \<open>calculate_power_law\<close> nor
  \<open>calculate_power_law_metrics\<close> returns 1 for it.
\<close>

theorem geometric_sample_r_squared_not_one:
  "\<not> isl (calculate_power_law [1000, 500, 250, 125])
   \<and> fst (snd (projr (calculate_power_law [1000, 500, 250, 125]))) \<noteq> Some 1
   \<and> \<not> isl (calculate_power_law_metrics [1000, 500, 250, 125])
   \<and> r_squared (projr (calculate_power_law_metrics [1000, 500, 250, 125])) \<noteq> 1"
  using power_law_geometric metrics_geometric by auto

text \<open>
  Claim C4, amended: for \<open>[1000, 500, 250, 125]\<close> both functions yield
  \<open>R\<^sup>2 = (5a + b)\<^sup>2 / (5 (11a\<^sup>2 - 6ab + 3b\<^sup>2))\<close> with \<open>a = log10 2\<close> and \<open>b = log10 3\<close>,
  a value below 0.97 (about 0.961). The value 1 is obtained for a sample that is an exact
  power law of the rank, such as \<open>[1200, 600, 400, 300]\<close> (1200 / rank), whose exponent
  is 1.
\<close>

theorem rank_size_r_squared:
  "(\<exists>al r2. calculate_power_law [1000, 500, 250, 125] = Inr (Some al, Some r2, Some 4)
      \<and> r2 = (5 * log 10 2 + log 10 3)\<^sup>2
               / (5 * (11 * (log 10 2)\<^sup>2 - 6 * log 10 2 * log 10 3 + 3 * (log 10 3)\<^sup>2))
      \<and> r2 < 97 / 100)
   \<and> (\<exists>m. calculate_power_law_metrics [1000, 500, 250, 125] = Inr m
      \<and> r_squared m = (5 * log 10 2 + log 10 3)\<^sup>2
               / (5 * (11 * (log 10 2)\<^sup>2 - 6 * log 10 2 * log 10 3 + 3 * (log 10 3)\<^sup>2))
      \<and> r_squared m < 97 / 100)
   \<and> calculate_power_law [1200, 600, 400, 300] = Inr (Some 1, Some 1, Some 4)"
  using power_law_geometric metrics_geometric power_law_harmonic by blast

text \<open>
  Claim C5: the Gini coefficient
  \<open>(2 * sum(i * x_i)) / (n * sum(x)) - (n + 1) / n\<close> over the ascending-sorted sample lies
  in \<open>[0, 1)\<close> for \<open>[100, 10, 1]\<close> (it is 22/37) and is exactly 0 for \<open>[5, 5, 5, 5]\<close>;
  the \<open>gini\<close> entry of \<open>calculate_power_law_metrics\<close> has the same values.
\<close>

theorem gini_of_samples:
  "(\<exists>g. gini [100, 10, 1] = Inr g \<and> g = 22 / 37 \<and> 0 \<le> g \<and> g < 1)
   \<and> gini [5, 5, 5, 5] = Inr 0
   \<and> (\<exists>g. map_sum id gini_coefficient (calculate_power_law_metrics [100, 10, 1]) = Inr g
          \<and> 0 \<le> g \<and> g < 1)
   \<and> map_sum id gini_coefficient (calculate_power_law_metrics [5, 5, 5, 5]) = Inr 0"
proof -
  have range: "(0::real) \<le> 22 / 37 \<and> (22 / 37 :: real) < 1" by simp
  have "\<exists>g. gini [100, 10, 1] = Inr g \<and> g = 22 / 37 \<and> 0 \<le> g \<and> g < 1"
    using gini_decades range by blast
  moreover have "\<exists>g. map_sum id gini_coefficient (calculate_power_law_metrics [100, 10, 1]) = Inr g
          \<and> 0 \<le> g \<and> g < 1"
    using metrics_gini_decades range by blast
  ultimately show ?thesis
    using gini_uniform metrics_gini_uniform by blast
qed

text \<open>
  Claim C7: for every input list without a positive value, the empty list included,
  \<open>calculate_power_law\<close> returns the sentinel \<open>(None, None, None)\<close>; it neither raises
  nor reaches a logarithm (the result is not \<open>Inl\<close>).
\<close>

theorem calculate_power_law_no_positive:
  assumes "\<forall>x \<in> set data. \<not> 0 < x"
  shows "calculate_power_law data = Inr (None, None, None)"
proof -
  from assms have "filter (\<lambda>x. x > 0) data = []"
    by (simp add: filter_empty_conv)
  then show ?thesis by (simp add: calculate_power_law_def)
qed

theorem calculate_power_law_no_positive_witness:
  "calculate_power_law [] = Inr (None, None, None)
   \<and> calculate_power_law [0, - 3, - 1 / 2] = Inr (None, None, None)"
  using calculate_power_law_no_positive [of "[]"]
    calculate_power_law_no_positive [of "[0, - 3, - 1 / 2]"]
  by simp


section \<open>Properties of SteamPlayerCountCollector\<close>

subsection \<open>One iteration\<close>

lemma get_player_count_app_id:
  "get_player_count e w a = (Some pd, w') \<Longrightarrow> app_id pd = a"
  by (auto simp: get_player_count_def Let_def split: option.splits)

lemma step_processed:
  assumes "collect_bulk_step e p i a s = Inr s'"
    and "processed_ids s = set (map app_id (all_data s))"
  shows "processed_ids s' = set (map app_id (all_data s'))"
  using assms
  by (auto simp: collect_bulk_step_def Let_def split: if_splits prod.splits option.splits
      dest: get_player_count_app_id)

lemma step_distinct:
  assumes "collect_bulk_step e p i a s = Inr s'"
    and "processed_ids s = set (map app_id (all_data s))"
    and "distinct (map app_id (all_data s))"
  shows "distinct (map app_id (all_data s'))"
  using assms
  by (auto simp: collect_bulk_step_def Let_def split: if_splits prod.splits option.splits
      dest: get_player_count_app_id)

lemma step_successful:
  assumes "collect_bulk_step e p i a s = Inr s'"
    and "successful (stats (self s)) = length (all_data s)"
  shows "successful (stats (self s')) = length (all_data s')"
  using assms
  by (auto simp: collect_bulk_step_def Let_def split: if_splits prod.splits option.splits)

lemma step_saved:
  assumes "collect_bulk_step e p i a s = Inr s'"
    and "x \<in> set (saved s')"
  shows "x \<in> set (saved s) \<or> (\<exists>f. x = (f, all_data s', processed_ids s'))"
  using assms
  by (auto simp: collect_bulk_step_def Let_def split: if_splits prod.splits option.splits)


lemma step_interval:
  "collect_bulk_step e p i a s = Inr s' \<Longrightarrow> checkpoint_interval (self s') = checkpoint_interval (self s)"
  by (auto simp: collect_bulk_step_def Let_def split: if_splits prod.splits option.splits)

lemma loop_invariant:
  assumes "collect_bulk_loop e p i xs s = Inr s'"
    and "P s"
    and "\<And>i a s s'. collect_bulk_step e p i a s = Inr s' \<Longrightarrow> P s \<Longrightarrow> P s'"
  shows "P s'"
  using assms(1,2)
proof (induction xs arbitrary: i s)
  case Nil
  then show ?case by simp
next
  case (Cons a xs)
  then show ?case
    by (auto split: sum.splits intro: assms(3))
qed

lemma find_checkpoint_ids:
  assumes "find_checkpoint fs p indices (d0, p0, i0, l0) = Inr (d, pr, i, l)"
    and "p0 = set (map app_id d0)"
  shows "pr = set (map app_id d)"
  using assms
  by (induction indices) (auto split: option.splits file_content.splits if_splits)

lemma start_state:
  assumes "collect_bulk_start slf w app_ids p resume = Inr s0"
  shows "processed_ids s0 = set (map app_id (all_data s0))"
    and "successful (stats (self s0)) = length (all_data s0)"
    and "saved s0 = []"
    and "\<not> resume \<Longrightarrow> all_data s0 = []"
  using assms
  by (auto simp: collect_bulk_start_def py_range_def split: if_splits sum.splits prod.splits
      dest: find_checkpoint_ids)

lemma step_accumulator_ok:
  assumes "collect_bulk_step e p i a s = Inr s'"
    and "accumulator_ok u (all_data s) (processed_ids s) \<and>
         (\<forall>(f, d, ids) \<in> set (saved s). accumulator_ok u d ids)"
  shows "accumulator_ok u (all_data s') (processed_ids s') \<and>
         (\<forall>(f, d, ids) \<in> set (saved s'). accumulator_ok u d ids)"
proof -
  have ok: "accumulator_ok u (all_data s') (processed_ids s')"
    using assms step_processed[OF assms(1)] step_distinct[OF assms(1)]
    by (auto simp: accumulator_ok_def)
  moreover have "accumulator_ok u d ids" if "(f, d, ids) \<in> set (saved s')" for f d ids
    using step_saved[OF assms(1) that] assms(2) ok by auto
  ultimately show ?thesis by auto
qed


subsection \<open>Checkpoint files on disk\<close>

lemma checkpoints_ok_empty: "checkpoints_ok (disk empty_world) output_prefix"
  by (simp add: checkpoints_ok_def empty_world_def)

lemma find_checkpoint_distinct:
  assumes "checkpoints_ok fs p"
    and "find_checkpoint fs p indices (d0, p0, i0, l0) = Inr (d, pr, i, l)"
    and "distinct (map app_id d0)"
  shows "distinct (map app_id d)"
  using assms(2,3)
proof (induction indices)
  case Nil
  then show ?case by simp
next
  case (Cons j indices)
  have ok: "case fs (checkpoint_file p (nat j)) of
            None \<Rightarrow> True
          | Some (JsonList records) \<Rightarrow> distinct (map app_id records)
          | Some (JsonIds ids) \<Rightarrow> ids = {}
          | Some _ \<Rightarrow> True"
    using assms(1) unfolding checkpoints_ok_def by blast
  show ?case
    using Cons ok by (auto split: option.splits file_content.splits if_splits)
qed

lemma start_distinct:
  assumes "collect_bulk_start slf w app_ids p resume = Inr s0"
    and "\<not> resume \<or> checkpoints_ok (disk w) p"
  shows "distinct (map app_id (all_data s0))"
  using assms
  by (auto simp: collect_bulk_start_def split: if_splits sum.splits prod.splits
      dest: find_checkpoint_distinct)

lemma start_world:
  "collect_bulk_start slf w app_ids p resume = Inr s0 \<Longrightarrow> world s0 = w"
  by (auto simp: collect_bulk_start_def split: if_splits sum.splits prod.splits)

lemma processed_ids_file_not_checkpoint:
  "processed_ids_file p \<noteq> checkpoint_file p i"
  by (simp add: processed_ids_file_def checkpoint_file_def)

lemma get_player_count_disk:
  "get_player_count e w a = (r, w') \<Longrightarrow> disk w' = disk w"
  by (auto simp: get_player_count_def Let_def split: option.splits)

lemma step_checkpoints_ok:
  assumes step: "collect_bulk_step e p i a s = Inr s'"
    and acc: "accumulator_ok True (all_data s) (processed_ids s)"
    and ok: "checkpoints_ok (disk (world s)) p"
  shows "checkpoints_ok (disk (world s')) p"
proof (cases "a \<in> processed_ids s")
  case True
  then show ?thesis using step ok by (simp add: collect_bulk_step_def)
next
  case False
  have d': "distinct (map app_id (all_data s'))"
    using step_distinct[OF step] acc by (simp add: accumulator_ok_def)
  obtain r w1 where g: "get_player_count e (world s) a = (r, w1)"
    by (cases "get_player_count e (world s) a")
  have dk: "disk w1 = disk (world s)" using g by (rule get_player_count_disk)
  have "disk (world s') = disk (world s)
      \<or> (\<exists>f. (disk (world s') = (disk (world s))(f \<mapsto> JsonList (all_data s'))
             \<or> disk (world s') = (disk (world s))(f \<mapsto> JsonList (all_data s'),
                   processed_ids_file p \<mapsto> JsonIds (processed_ids s'))
             \<or> disk (world s') = (disk (world s))(processed_ids_file p \<mapsto> JsonIds (processed_ids s'))))"
    using step False g dk
    by (auto simp: collect_bulk_step_def Let_def save_checkpoint_def save_processed_ids_def
        split: if_splits option.splits)
  then have upd: "disk (world s') (checkpoint_file p j) = disk (world s) (checkpoint_file p j)
      \<or> disk (world s') (checkpoint_file p j) = Some (JsonList (all_data s'))" for j
    using processed_ids_file_not_checkpoint[of p j] by auto
  show ?thesis
    unfolding checkpoints_ok_def
  proof
    fix j
    have old: "case disk (world s) (checkpoint_file p j) of
            None \<Rightarrow> True
          | Some (JsonList records) \<Rightarrow> distinct (map app_id records)
          | Some (JsonIds ids) \<Rightarrow> ids = {}
          | Some _ \<Rightarrow> True"
      using ok unfolding checkpoints_ok_def by blast
    from upd[of j] show "case disk (world s') (checkpoint_file p j) of
            None \<Rightarrow> True
          | Some (JsonList records) \<Rightarrow> distinct (map app_id records)
          | Some (JsonIds ids) \<Rightarrow> ids = {}
          | Some _ \<Rightarrow> True"
    proof
      assume "disk (world s') (checkpoint_file p j) = disk (world s) (checkpoint_file p j)"
      then show ?thesis using old by simp
    next
      assume "disk (world s') (checkpoint_file p j) = Some (JsonList (all_data s'))"
      then show ?thesis using d' by simp
    qed
  qed
qed

subsection \<open>Runs without exception, runs under an idempotent fetch\<close>

lemma step_total:
  "checkpoint_interval (self s) \<noteq> 0 \<Longrightarrow> \<exists>s'. collect_bulk_step e p i a s = Inr s'"
  by (auto simp: collect_bulk_step_def Let_def split: if_splits prod.splits option.splits)

lemma loop_total:
  "checkpoint_interval (self s) \<noteq> 0 \<Longrightarrow> \<exists>s'. collect_bulk_loop e p i xs s = Inr s'"
proof (induction xs arbitrary: i s)
  case Nil
  then show ?case by simp
next
  case (Cons a xs)
  obtain s1 where s1: "collect_bulk_step e p i a s = Inr s1"
    using step_total[OF Cons.prems] by blast
  then have "checkpoint_interval (self s1) \<noteq> 0"
    using step_interval Cons.prems by simp
  from Cons.IH[OF this] s1 show ?case by simp
qed

lemma step_fetch:
  assumes step: "collect_bulk_step e p i a s = Inr s'"
    and fetch: "\<forall>w a. fst (get_player_count e w a) = g a"
  shows "all_data s' = all_data s @ new_records g (processed_ids s) [a]
       \<and> processed_ids s' = processed_ids s \<union> set (map app_id (new_records g (processed_ids s) [a]))"
proof (cases "a \<in> processed_ids s")
  case True
  then show ?thesis using step by (simp add: collect_bulk_step_def)
next
  case False
  obtain r w1 where f: "get_player_count e (world s) a = (r, w1)" by (cases "get_player_count e (world s) a")
  then have g: "g a = r" using fetch by (metis fst_conv)
  show ?thesis
  proof (cases r)
    case None
    then show ?thesis using step False f g
      by (auto simp: collect_bulk_step_def Let_def split: if_splits)
  next
    case (Some pd)
    then have "app_id pd = a" using f get_player_count_app_id by blast
    then show ?thesis using step False f g Some
      by (auto simp: collect_bulk_step_def Let_def split: if_splits)
  qed
qed

lemma new_records_Cons:
  "new_records g P (a # rest) =
     new_records g P [a] @ new_records g (P \<union> set (map app_id (new_records g P [a]))) rest"
  if "\<forall>a r. g a = Some r \<longrightarrow> app_id r = a"
  using that by (auto split: option.splits)

lemma fetch_app_id:
  assumes "\<forall>w a. fst (get_player_count e w a) = g a"
  shows "\<forall>a r. g a = Some r \<longrightarrow> app_id r = a"
proof (intro allI impI)
  fix a r assume "g a = Some r"
  then have "fst (get_player_count e w a) = Some r" for w using assms by simp
  then show "app_id r = a" by (metis get_player_count_app_id prod.collapse)
qed

lemma loop_fetch:
  assumes "collect_bulk_loop e p i xs s = Inr s'"
    and fetch: "\<forall>w a. fst (get_player_count e w a) = g a"
  shows "all_data s' = all_data s @ new_records g (processed_ids s) xs
       \<and> processed_ids s' = processed_ids s \<union> set (map app_id (new_records g (processed_ids s) xs))"
  using assms(1)
proof (induction xs arbitrary: i s)
  case Nil
  then show ?case by simp
next
  case (Cons a xs)
  then obtain s1 where s1: "collect_bulk_step e p i a s = Inr s1"
    and rest: "collect_bulk_loop e p (Suc i) xs s1 = Inr s'"
    by (auto split: sum.splits)
  note st = step_fetch[OF s1 fetch]
  note ih = Cons.IH[OF rest]
  note nc = new_records_Cons[OF fetch_app_id[OF fetch], of "processed_ids s" a xs]
  show ?case
    unfolding nc using st ih by (simp add: Un_assoc)
qed

lemma new_records_resume:
  assumes gid: "\<forall>a r. g a = Some r \<longrightarrow> app_id r = a"
    and "prefix d (new_records g P xs)"
  shows "new_records g (P \<union> set (map app_id d)) xs = drop (length d) (new_records g P xs)"
  using assms(2)
proof (induction xs arbitrary: P d)
  case Nil
  then show ?case by simp
next
  case (Cons a xs)
  show ?case
  proof (cases "a \<in> P")
    case True
    then show ?thesis using Cons by simp
  next
    case notP: False
    show ?thesis
    proof (cases "g a")
      case None
      then have pre: "prefix d (new_records g P xs)" using Cons.prems notP by simp
      show ?thesis using Cons.IH[OF pre] None notP by simp
    next
      case (Some r)
      then have rid: "app_id r = a" using gid by simp
      have full: "new_records g P (a # xs) = r # new_records g (insert a P) xs"
        using Some notP by simp
      show ?thesis
      proof (cases d)
        case Nil
        then show ?thesis by simp
      next
        case (Cons r' d')
        then have r': "r' = r" and pre: "prefix d' (new_records g (insert a P) xs)"
          using Cons.prems full by simp_all
        have "new_records g (insert a P \<union> set (map app_id d')) xs
            = drop (length d') (new_records g (insert a P) xs)"
          using Cons.IH[OF pre] .
        then show ?thesis using Cons r' rid full by simp
      qed
    qed
  qed
qed

lemma step_total_requested:
  "collect_bulk_step e p i a s = Inr s' \<Longrightarrow>
     total_requested (stats (self s')) = total_requested (stats (self s))"
  by (auto simp: collect_bulk_step_def Let_def split: if_splits prod.splits option.splits)

lemma loop_total_requested:
  assumes "collect_bulk_loop e p i xs s = Inr s'"
  shows "total_requested (stats (self s')) = total_requested (stats (self s))
       \<and> checkpoint_interval (self s') = checkpoint_interval (self s)"
  using assms
proof (induction xs arbitrary: i s)
  case Nil
  then show ?case by simp
next
  case (Cons a xs)
  then obtain s1 where s1: "collect_bulk_step e p i a s = Inr s1"
    and rest: "collect_bulk_loop e p (Suc i) xs s1 = Inr s'"
    by (auto split: sum.splits)
  show ?case
    using Cons.IH[OF rest] step_total_requested[OF s1] step_interval[OF s1] by simp
qed

lemma start_config:
  assumes "collect_bulk_start slf w app_ids p resume = Inr s0"
  shows "total_requested (stats (self s0)) = length app_ids"
    and "checkpoint_interval (self s0) = checkpoint_interval slf"
    and "resume \<Longrightarrow> checkpoint_interval slf \<noteq> 0"
  using assms
  by (auto simp: collect_bulk_start_def py_range_def split: if_splits sum.splits prod.splits)


subsection \<open>Evaluation of concrete runs\<close>

lemmas run_simps =
  collect_bulk_def collect_bulk_start_def collect_bulk_step_def get_player_count_def
  save_checkpoint_def save_processed_ids_def checkpoint_file_def processed_ids_file_def
  print_final_stats_def example_env_def empty_world_def new_collector_def example_record_def
  Let_def str_of_nat.simps py_range_def py_range_from.simps

subsection \<open>Claims about SteamPlayerCountCollector.collect_bulk\<close>

text \<open>
  Claim C1: for every input list of distinct identifiers, at every point of the
  accumulation loop, and at every checkpoint write, the processed-ID set is exactly the
  set of \<open>app_id\<close> values of the accumulated records, and the accumulated list holds at
  most one record per identifier.

  Let \<open>s0\<close> be the state in which the loop starts and \<open>s\<close> the state after \<open>k\<close>
  iterations, \<open>k = 0\<close> included (an iteration depends on the identifiers before it only,
  so this is the loop run on the first \<open>k\<close> identifiers). Without \<open>resume\<close>, or with
  \<open>resume\<close> on a disk whose checkpoint files are as \<open>_save_checkpoint\<close> leaves them,
  both parts hold of \<open>s\<close> and of the arguments of every checkpoint write up to \<open>s\<close>;
  and the disk of \<open>s\<close> is again such a disk, so that the next resumed run starts under the
  same condition. The theorem does not need the identifiers of the input list to be
  distinct: an identifier that comes again is skipped.
\<close>

theorem collect_bulk_accumulator_invariant:
  assumes ok: "\<not> resume \<or> checkpoints_ok (disk w) output_prefix"
    and start: "collect_bulk_start slf w app_ids output_prefix resume = Inr s0"
    and loop: "collect_bulk_loop e output_prefix 1 (take k app_ids) s0 = Inr s"
  shows "processed_ids s = set (map app_id (all_data s))
       \<and> distinct (map app_id (all_data s))
       \<and> (\<forall>(f, d, ids) \<in> set (saved s).
             ids = set (map app_id d) \<and> distinct (map app_id d))
       \<and> (checkpoints_ok (disk w) output_prefix
            \<longrightarrow> checkpoints_ok (disk (world s)) output_prefix)"
proof -
  let ?P = "\<lambda>s. (accumulator_ok True (all_data s) (processed_ids s)
         \<and> (\<forall>(f, d, ids) \<in> set (saved s). accumulator_ok True d ids))
       \<and> (checkpoints_ok (disk w) output_prefix
            \<longrightarrow> checkpoints_ok (disk (world s)) output_prefix)"
  have "?P s0"
    using start_state[OF start] start_distinct[OF start ok] start_world[OF start]
    by (simp add: accumulator_ok_def)
  with loop have "?P s"
  proof (rule loop_invariant)
    fix i a t t'
    assume step: "collect_bulk_step e output_prefix i a t = Inr t'" and P: "?P t"
    from P have acc: "accumulator_ok True (all_data t) (processed_ids t)
         \<and> (\<forall>(f, d, ids) \<in> set (saved t). accumulator_ok True d ids)"
      by blast
    from step acc have "accumulator_ok True (all_data t') (processed_ids t')
         \<and> (\<forall>(f, d, ids) \<in> set (saved t'). accumulator_ok True d ids)"
      by (rule step_accumulator_ok)
    moreover have "checkpoints_ok (disk (world t')) output_prefix"
      if "checkpoints_ok (disk w) output_prefix"
      using step_checkpoints_ok[OF step] acc P that by blast
    ultimately show "?P t'" by blast
  qed
  then show ?thesis by (auto simp: accumulator_ok_def)
qed

theorem collect_bulk_accumulator_invariant_witness:
  "processed_ids (projr (collect_bulk_loop example_env ''p'' 1 (take 3 [10, 20, 30])
      (projr (collect_bulk_start (new_collector 1)
         (empty_world\<lparr>disk := (disk empty_world)
            (''p_checkpoint_1.json'' \<mapsto> JsonList [example_record 10 1])\<rparr>)
         [10, 20, 30] ''p'' True))))
   = {10, 30}
   \<and> distinct (map app_id (all_data (projr (collect_bulk_loop example_env ''p'' 1 (take 3 [10, 20, 30])
      (projr (collect_bulk_start (new_collector 1)
         (empty_world\<lparr>disk := (disk empty_world)
            (''p_checkpoint_1.json'' \<mapsto> JsonList [example_record 10 1])\<rparr>)
         [10, 20, 30] ''p'' True))))))
   \<and> map (\<lambda>(f, d, ids). ids = set (map app_id d) \<and> distinct (map app_id d))
        (saved (projr (collect_bulk_loop example_env ''p'' 1 (take 3 [10, 20, 30])
      (projr (collect_bulk_start (new_collector 1)
         (empty_world\<lparr>disk := (disk empty_world)
            (''p_checkpoint_1.json'' \<mapsto> JsonList [example_record 10 1])\<rparr>)
         [10, 20, 30] ''p'' True)))))
     = [True, True]
   \<and> checkpoints_ok
        (disk (world (projr (collect_bulk_loop example_env ''p'' 1 (take 3 [10, 20, 30])
      (projr (collect_bulk_start (new_collector 1)
         (empty_world\<lparr>disk := (disk empty_world)
            (''p_checkpoint_1.json'' \<mapsto> JsonList [example_record 10 1])\<rparr>)
         [10, 20, 30] ''p'' True))))))
        ''p''"
proof -
  let ?w = "empty_world\<lparr>disk := (disk empty_world)
            (''p_checkpoint_1.json'' \<mapsto> JsonList [example_record 10 1])\<rparr>"
  have ok: "checkpoints_ok (disk ?w) ''p''"
    by (simp add: checkpoints_ok_def empty_world_def example_record_def)
  obtain s0 where start: "collect_bulk_start (new_collector 1) ?w [10, 20, 30] ''p'' True = Inr s0"
    and restored: "all_data s0 = [example_record 10 1]"
    by (simp add: run_simps)
  have "checkpoint_interval (self s0) \<noteq> 0"
    using start_config(2)[OF start] by (simp add: new_collector_def)
  then obtain s where loop: "collect_bulk_loop example_env ''p'' 1 (take 3 [10, 20, 30]) s0 = Inr s"
    using loop_total by blast
  have data: "all_data s = [example_record 10 1, example_record 30 3]"
    and sv: "length (saved s) = 2"
    using loop restored start_state(1,3)[OF start] start_config(2)[OF start]
    by (auto simp: run_simps split: if_splits)
  from ok have "\<not> True \<or> checkpoints_ok (disk ?w) ''p''" by simp
  from collect_bulk_accumulator_invariant[OF this start loop] ok
  have inv: "processed_ids s = set (map app_id (all_data s)) \<and> distinct (map app_id (all_data s))
      \<and> (\<forall>(f, d, ids) \<in> set (saved s). ids = set (map app_id d) \<and> distinct (map app_id d))"
    and after: "checkpoints_ok (disk (world s)) ''p''"
    by blast+
  obtain x y where xy: "saved s = [x, y]"
    using sv by (metis (no_types) One_nat_def Suc_1 length_0_conv length_Suc_conv)
  have "map (\<lambda>(f, d, ids). ids = set (map app_id d) \<and> distinct (map app_id d)) (saved s)
      = [True, True]"
    using inv unfolding xy by auto
  then show ?thesis using inv after start loop data by (simp add: example_record_def)
qed

text \<open>
  Claim C2: let the fetch be idempotent (\<open>get_player_count\<close> answers the same for an
  identifier at every time, in the environment \<open>e\<close> of the uncheckpointed run and in the
  environment \<open>e'\<close> of the resumed one), let the uncheckpointed run (\<open>resume=False\<close>)
  return \<open>full_data\<close>, and let the resumed call start from a restored list that is a
  prefix of \<open>full_data\<close>. If the clock of the resumed run advances, it returns
  \<open>full_data\<close> too: the same list, hence the same set of identifier-record pairs. The
  input list need not be duplicate-free.
\<close>

theorem resume_equals_uncheckpointed_run:
  assumes idem: "\<forall>w w' a. fst (get_player_count e w a) = fst (get_player_count e' w' a)"
    and full: "map_sum id fst (collect_bulk e slf w app_ids output_prefix False) = Inr full_data"
    and start: "collect_bulk_start slf' w' app_ids output_prefix True = Inr s0"
    and pre: "prefix (all_data s0) full_data"
    and dur: "run_seconds e' \<noteq> 0"
  shows "\<exists>data. map_sum id fst (collect_bulk e' slf' w' app_ids output_prefix True) = Inr data
           \<and> data = full_data
           \<and> set (map (\<lambda>r. (app_id r, r)) data) = set (map (\<lambda>r. (app_id r, r)) full_data)"
proof -
  define g where "g a = fst (get_player_count e' \<lparr>disk = (\<lambda>f. None), requests = []\<rparr> a)" for a
  have fetch: "\<forall>w a. fst (get_player_count e w a) = g a"
    and fetch': "\<forall>w a. fst (get_player_count e' w a) = g a"
    using idem unfolding g_def by metis+
  obtain t0 t where t0: "collect_bulk_start slf w app_ids output_prefix False = Inr t0"
    and t: "collect_bulk_loop e output_prefix 1 app_ids t0 = Inr t"
    and tp: "print_final_stats e (stats (self t)) = None"
    and fd: "full_data = all_data t"
    using full by (auto simp: collect_bulk_def split: sum.splits option.splits)
  have "all_data t0 = []" and "processed_ids t0 = {}"
    using start_state[OF t0] by simp_all
  then have full_eq: "full_data = new_records g {} app_ids"
    using loop_fetch[OF t fetch] fd by simp
  have "total_requested (stats (self t)) = length app_ids"
    using loop_total_requested[OF t] start_config(1)[OF t0] by simp
  then have ne: "length app_ids \<noteq> 0"
    using tp by (auto simp: print_final_stats_def split: if_splits)
  have "checkpoint_interval (self s0) \<noteq> 0"
    using start_config[OF start] by simp
  then obtain s where s: "collect_bulk_loop e' output_prefix 1 app_ids s0 = Inr s"
    using loop_total by blast
  have "total_requested (stats (self s)) = length app_ids"
    using loop_total_requested[OF s] start_config(1)[OF start] by simp
  then have sp: "print_final_stats e' (stats (self s)) = None"
    using ne dur by (simp add: print_final_stats_def)
  have "all_data s = all_data s0 @ new_records g (set (map app_id (all_data s0))) app_ids"
    using loop_fetch[OF s fetch'] start_state(1)[OF start] by simp
  also have "new_records g (set (map app_id (all_data s0))) app_ids
      = drop (length (all_data s0)) full_data"
    using new_records_resume[OF fetch_app_id[OF fetch], of "all_data s0" "{}" app_ids] pre
    unfolding full_eq by simp
  also have "all_data s0 @ drop (length (all_data s0)) full_data = full_data"
    using pre by (metis append_eq_conv_conj prefix_def)
  finally have "all_data s = full_data" .
  then show ?thesis
    using start s sp by (simp add: collect_bulk_def)
qed


theorem resume_equals_uncheckpointed_run_witness:
  "map_sum id fst
     (collect_bulk example_env (new_collector 1)
        (empty_world\<lparr>disk := (disk empty_world)
            (''p_checkpoint_2.json'' \<mapsto> JsonList [example_record 10 1])\<rparr>)
        [10, 20, 30] ''p'' True)
   = Inr [example_record 10 1, example_record 30 3]"
proof -
  let ?w = "empty_world\<lparr>disk := (disk empty_world)
            (''p_checkpoint_2.json'' \<mapsto> JsonList [example_record 10 1])\<rparr>"
  have idem: "\<forall>w w' a. fst (get_player_count example_env w a) = fst (get_player_count example_env w' a)"
    by (simp add: get_player_count_def example_env_def Let_def split: option.splits)
  have full: "map_sum id fst (collect_bulk example_env (new_collector 1) empty_world [10, 20, 30] ''p'' False)
      = Inr [example_record 10 1, example_record 30 3]"
    by (simp add: run_simps)
  obtain s0 where start: "collect_bulk_start (new_collector 1) ?w [10, 20, 30] ''p'' True = Inr s0"
    and restored: "all_data s0 = [example_record 10 1]"
    by (simp add: run_simps)
  have pre: "prefix (all_data s0) [example_record 10 1, example_record 30 3]"
    using restored by simp
  have dur: "run_seconds example_env \<noteq> 0" by (simp add: example_env_def)
  from resume_equals_uncheckpointed_run[OF idem full start pre dur]
  show ?thesis by simp
qed

text \<open>
  Claim C9: \<open>stats['successful']\<close> equals the length of the accumulated list when the loop
  starts (restored checkpoint included), after any number of iterations, and in what
  \<open>collect_bulk\<close> returns.
\<close>

theorem successful_counts_accumulator:
  "collect_bulk_start slf w app_ids output_prefix resume = Inr s0 \<Longrightarrow>
     successful (stats (self s0)) = length (all_data s0)
     \<and> (\<forall>k s. collect_bulk_loop e output_prefix 1 (take k app_ids) s0 = Inr s \<longrightarrow>
           successful (stats (self s)) = length (all_data s))
     \<and> (\<forall>data slf' w'. collect_bulk e slf w app_ids output_prefix resume = Inr (data, slf', w') \<longrightarrow>
           length data = successful (stats slf'))"
proof -
  assume start: "collect_bulk_start slf w app_ids output_prefix resume = Inr s0"
  have s0: "successful (stats (self s0)) = length (all_data s0)"
    using start_state(2)[OF start] .
  have loop: "successful (stats (self s)) = length (all_data s)"
    if "collect_bulk_loop e output_prefix 1 xs s0 = Inr s" for xs s
    using that s0 by (rule loop_invariant) (rule step_successful)
  have "length data = successful (stats slf')"
    if "collect_bulk e slf w app_ids output_prefix resume = Inr (data, slf', w')" for data slf' w'
    using that start loop[of app_ids]
    by (auto simp: collect_bulk_def split: sum.splits option.splits)
  with s0 loop show ?thesis by blast
qed



theorem successful_counts_accumulator_witness:
  "length (fst (projr (collect_bulk example_env (new_collector 2) empty_world [10, 20, 30] ''p'' False)))
   = successful (stats (fst (snd (projr
       (collect_bulk example_env (new_collector 2) empty_world [10, 20, 30] ''p'' False)))))
   \<and> length (fst (projr (collect_bulk example_env (new_collector 2) empty_world [10, 20, 30] ''p'' False)))
   = 2"
proof -
  obtain s0 where
    start: "collect_bulk_start (new_collector 2) empty_world [10, 20, 30] ''p'' False = Inr s0"
    by (simp add: run_simps)
  obtain data slf' w' where
    run: "collect_bulk example_env (new_collector 2) empty_world [10, 20, 30] ''p'' False
            = Inr (data, slf', w')"
    and len: "length data = 2"
    by (simp add: run_simps)
  from successful_counts_accumulator[OF start, of example_env] run
  have "length data = successful (stats slf')" by blast
  then show ?thesis using run len by simp
qed

text \<open>
  Claim C3 (a defect of the code): with \<open>resume=True\<close> the checkpoint with the highest
  progress counter not exceeding the input length is to be found and loaded. The search
  visits \<open>range(len(app_ids), 0, -checkpoint_interval)\<close>, while checkpoints are written
  where \<open>i % checkpoint_interval == 0\<close>; the two agree only if the interval divides the
  input length. Below, a fresh run over three identifiers with interval 2 is interrupted
  after two iterations; it has written the checkpoint number 2. The resumed call on the
  same input looks for the numbers 3 and 1 only, starts from the empty state and fetches
  all three identifiers again.
\<close>

theorem resume_misses_written_checkpoint:
  "map_sum id (\<lambda>s. disk (world s) ''p_checkpoint_2.json'')
     (collect_bulk_loop example_env ''p'' 1 (take 2 [10, 30, 50])
        (projr (collect_bulk_start (new_collector 2) empty_world [10, 30, 50] ''p'' False)))
   = Inr (Some (JsonList [example_record 10 1, example_record 30 3]))
   \<and> map_sum id (\<lambda>s. (all_data s, processed_ids s))
       (collect_bulk_start (new_collector 2)
          (world (projr (collect_bulk_loop example_env ''p'' 1 (take 2 [10, 30, 50])
             (projr (collect_bulk_start (new_collector 2) empty_world [10, 30, 50] ''p'' False)))))
          [10, 30, 50] ''p'' True)
     = Inr ([], {})
   \<and> map_sum id (\<lambda>(data, slf, w). drop 2 (requests w))
       (collect_bulk example_env (new_collector 2)
          (world (projr (collect_bulk_loop example_env ''p'' 1 (take 2 [10, 30, 50])
             (projr (collect_bulk_start (new_collector 2) empty_world [10, 30, 50] ''p'' False)))))
          [10, 30, 50] ''p'' True)
     = Inr [CurrentPlayers 10, CurrentPlayers 30, CurrentPlayers 50]"
  by (simp add: run_simps)


section \<open>Properties of the sampler and of the writers\<close>

text \<open>
  Claim C6: with a seed, the outcome of \<open>random_sample_app_ids\<close> does not depend on the
  state \<open>g\<close> or \<open>g'\<close> in which the generator is at the time of the call: two calls with
  the same seed, universe and target count have the same outcome, the sample and the
  generator state they leave included. For a positive target count within the universe
  that outcome is the sample drawn from the seeded generator (given that the library
  returns as many identifiers as it is asked for); for a target count of 0 it is the
  \<open>ValueError\<close> of \<open>min\<close> on the empty sample, in both calls.
\<close>

theorem random_sample_app_ids_seed_deterministic:
  "random_sample_app_ids random_seed random_sample g U k (Some s)
     = random_sample_app_ids random_seed random_sample g' U k (Some s)
   \<and> (0 < k \<longrightarrow> k \<le> int (length U) \<longrightarrow>
        (\<forall>h. length (fst (random_sample h U (nat k))) = nat k) \<longrightarrow>
        (\<exists>ids g2. random_sample_app_ids random_seed random_sample g U k (Some s) = Inr (ids, g2)
            \<and> (ids, g2) = random_sample (random_seed s) U (nat k)
            \<and> length ids = nat k))"
proof -
  have "\<exists>ids g2. random_sample_app_ids random_seed random_sample g U k (Some s) = Inr (ids, g2)
            \<and> (ids, g2) = random_sample (random_seed s) U (nat k)
            \<and> length ids = nat k"
    if k: "0 < k" "k \<le> int (length U)"
      and len: "\<forall>h. length (fst (random_sample h U (nat k))) = nat k"
  proof -
    obtain ids g2 where sm: "random_sample (random_seed s) U (nat k) = (ids, g2)"
      by (cases "random_sample (random_seed s) U (nat k)")
    then have "length ids = nat k" using len by (metis fst_conv)
    moreover from this k have "ids \<noteq> []" by auto
    ultimately show ?thesis
      using k sm by (simp add: random_sample_app_ids_def min_def)
  qed
  then show ?thesis by (simp add: random_sample_app_ids_def)
qed

theorem random_sample_app_ids_seed_deterministic_witness:
  "random_sample_app_ids (\<lambda>s. s) (\<lambda>h xs n. (take n (rotate (nat h) xs), h + 1)) 7 [1, 2, 3] 2 (Some 1)
    = Inr ([2, 3], 2)"
proof -
  let ?smp = "\<lambda>h xs n. (take n (rotate (nat h) xs), h + 1) :: int list \<times> int"
  have len: "\<forall>h. length (fst (?smp h [1, 2, 3] (nat 2))) = nat 2" by simp
  have "(0::int) < 2" and "(2::int) \<le> int (length [1, 2, 3 :: int])" by simp_all
  with len random_sample_app_ids_seed_deterministic[where k = 2 and U = "[1, 2, 3]" and s = 1 and g = 7 and g' = 7
      and random_sample = ?smp and random_seed = "\<lambda>s. s"]
  obtain ids g2 where
    "random_sample_app_ids (\<lambda>s. s) ?smp 7 [1, 2, 3] 2 (Some 1) = Inr (ids, g2)"
    and "(ids, g2) = ?smp 1 [1, 2, 3] (nat 2)"
    by blast
  then show ?thesis by (simp add: rotate_def numeral_2_eq_2)
qed


text \<open>
  Claim C10: in \<open>SteamPlayerCountCollector\<close> and \<open>SteamRandomCollector\<close>, \<open>save_to_csv\<close>
  and \<open>save_to_excel\<close> called with an empty list return with the world unchanged, while
  \<open>save_to_json\<close> called with an empty list writes the empty JSON array; for non-empty
  data each of the three writes its file. Writing presupposes that the file can be opened
  for writing.
\<close>

theorem save_empty_and_nonempty:
  "save_to_csv e [] f w = Inr w \<and> save_to_excel e [] f w = Inr w
   \<and> save_to_csv_random e [] f w' = Inr w' \<and> save_to_excel_random e [] f w' = Inr w'
   \<and> (writable e f \<longrightarrow>
        save_to_json e [] f w = Inr (w\<lparr>disk := (disk w)(f \<mapsto> JsonList [])\<rparr>)
        \<and> save_to_json e [] f w' = Inr (w'\<lparr>disk := (disk w')(f \<mapsto> JsonList [])\<rparr>))
   \<and> (writable e f \<longrightarrow> data \<noteq> [] \<longrightarrow>
        save_to_json e data f w = Inr (w\<lparr>disk := (disk w)(f \<mapsto> JsonList data)\<rparr>)
        \<and> save_to_csv e data f w
            = Inr (w\<lparr>disk := (disk w)(f \<mapsto> CsvTable (sort_key (\<lambda>r. - player_count r) data))\<rparr>)
        \<and> save_to_excel e data f w
            = Inr (w\<lparr>disk := (disk w)(f \<mapsto> ExcelTable (sort_key (\<lambda>r. - player_count r) data))\<rparr>))
   \<and> (writable e f \<longrightarrow> games \<noteq> [] \<longrightarrow>
        save_to_json e games f w' = Inr (w'\<lparr>disk := (disk w')(f \<mapsto> JsonList games)\<rparr>)
        \<and> save_to_csv_random e games f w'
            = Inr (w'\<lparr>disk := (disk w')(f \<mapsto> CsvTable (map game_row_of games))\<rparr>)
        \<and> save_to_excel_random e games f w'
            = Inr (w'\<lparr>disk := (disk w')(f \<mapsto> ExcelTable (map game_row_of games))\<rparr>))"
  by (simp add: save_to_csv_def save_to_excel_def save_to_csv_random_def save_to_excel_random_def
      save_to_json_def)


theorem save_empty_and_nonempty_witness:
  "disk (projr (save_to_csv example_env [] ''out.csv'' empty_world)) ''out.csv'' = None
   \<and> disk (projr (save_to_json example_env [] ''out.json'' (empty_world :: player_world))) ''out.json''
       = Some (JsonList [])
   \<and> disk (projr (save_to_csv example_env [example_record 10 1, example_record 30 3] ''out.csv''
         empty_world)) ''out.csv''
       = Some (CsvTable [example_record 30 3, example_record 10 1])
   \<and> disk (projr (save_to_excel_random example_env [example_game 10] ''out.xlsx'' empty_world))
         ''out.xlsx''
       = Some (ExcelTable [game_row_of (example_game 10)])
   \<and> row_categories (game_row_of (example_game 10)) = ''Single-player|Co-op''"
  using save_empty_and_nonempty[where e = example_env and f = "''out.csv''"
      and w = empty_world and w' = empty_world
      and data = "[example_record 10 1, example_record 30 3]" and games = "[example_game 10]"]
    save_empty_and_nonempty[where e = example_env and f = "''out.json''"
      and w = empty_world and w' = empty_world
      and data = "[example_record 10 1, example_record 30 3]" and games = "[example_game 10]"]
    save_empty_and_nonempty[where e = example_env and f = "''out.xlsx''"
      and w = empty_world and w' = empty_world
      and data = "[example_record 10 1, example_record 30 3]" and games = "[example_game 10]"]
  by (simp add: example_env_def empty_world_def example_record_def example_game_def game_row_of_def)

section \<open>Properties of the metadata collectors\<close>

lemma get_game_details_cases:
  assumes "get_game_details e w a = (res, w')"
  shows "requests w' = requests w @ [AppDetails a]"
    and "disk w' = disk w"
    and "res = None \<longleftrightarrow> appdetails e (length (requests w)) a = None"
    and "\<And>gd. res = Some gd \<Longrightarrow>
           details_app_id gd = a
           \<and> (\<exists>d. appdetails e (length (requests w)) a = Some d \<and> details_type gd = api_type d)"
  using assms
  by (auto simp: get_game_details_def Let_def split: option.splits)

lemma collect_single_game_cases:
  assumes "collect_single_game e st w a = (res, st', w')"
  shows "if not_a_game e w a
         then res = None \<and> st' = st \<and> requests w' = requests w @ [AppDetails a]
         else \<exists>gd. res = Some gd \<and> details_type gd = Some ''game'' \<and> details_app_id gd = a
                \<and> requests w' = requests w @ [AppDetails a, CurrentPlayers a, Achievements a]
                \<and> successful st' = successful st \<and> failed st' = failed st"
proof -
  obtain det w1 where g: "get_game_details e w a = (det, w1)"
    by (cases "get_game_details e w a")
  note gc = get_game_details_cases[OF g]
  show ?thesis
  proof (cases det)
    case None
    then have "not_a_game e w a" using gc(3) by (simp add: not_a_game_def)
    then show ?thesis using assms g None gc(1)
      by (simp add: collect_single_game_def)
  next
    case (Some gd)
    then obtain d where d: "appdetails e (length (requests w)) a = Some d"
      and ty: "details_type gd = api_type d" and gid: "details_app_id gd = a"
      using gc(4) by blast
    show ?thesis
    proof (cases "details_type gd = Some ''game''")
      case False
      then have "not_a_game e w a" using d ty by (simp add: not_a_game_def)
      then show ?thesis using assms g Some False gc(1)
        by (simp add: collect_single_game_def)
    next
      case True
      then have ng: "\<not> not_a_game e w a" using d ty by (simp add: not_a_game_def)
      let ?st1 = "case current_players e (length (requests w1)) a of
                    Some c \<Rightarrow> if c > 0 then st\<lparr>with_players := with_players st + 1\<rparr> else st
                  | None \<Rightarrow> st"
      have st1: "successful ?st1 = successful st \<and> failed ?st1 = failed st"
        by (simp split: option.splits)
      have "successful st' = successful st \<and> failed st' = failed st
          \<and> requests w' = requests w @ [AppDetails a, CurrentPlayers a, Achievements a]
          \<and> (\<exists>more. res = Some (game_details.extend gd more))"
        using assms g Some True gc(1) st1
        by (auto simp: collect_single_game_def get_player_count_int_def
            get_achievement_count_def Let_def split: option.splits if_splits)
      then show ?thesis using ng True gid
        by (auto simp: game_details.defs)
    qed
  qed
qed

lemma random_step_cases:
  assumes "collect_bulk_random_step e p i a s = Inr s'"
  shows "if not_a_game e (random_world s) a
         then random_all_data s' = random_all_data s
            \<and> failed (stats (random_self s')) = failed (stats (random_self s)) + 1
            \<and> successful (stats (random_self s')) = successful (stats (random_self s))
         else \<exists>gd. random_all_data s' = random_all_data s @ [gd]
            \<and> details_type gd = Some ''game'' \<and> details_app_id gd = a
            \<and> successful (stats (random_self s')) = successful (stats (random_self s)) + 1
            \<and> failed (stats (random_self s')) = failed (stats (random_self s))"
proof -
  obtain res st' w' where c: "collect_single_game e (stats (random_self s)) (random_world s) a = (res, st', w')"
    by (cases "collect_single_game e (stats (random_self s)) (random_world s) a") auto
  note cs = collect_single_game_cases[OF c]
  show ?thesis
  proof (cases "not_a_game e (random_world s) a")
    case True
    then have "res = None" "st' = st'" "st' = stats (random_self s)" using cs by simp_all
    then show ?thesis using assms c True
      by (auto simp: collect_bulk_random_step_def Let_def split: if_splits)
  next
    case False
    then obtain gd where "res = Some gd" "details_type gd = Some ''game''" "details_app_id gd = a"
      "successful st' = successful (stats (random_self s))" "failed st' = failed (stats (random_self s))"
      using cs by auto
    then show ?thesis using assms c False
      by (auto simp: collect_bulk_random_step_def Let_def split: if_splits)
  qed
qed

lemma random_loop_counts:
  assumes "collect_bulk_random_loop e p i xs s = Inr s'"
    and "\<forall>r \<in> set (random_all_data s). details_type r = Some ''game''"
  shows "(\<forall>r \<in> set (random_all_data s'). details_type r = Some ''game'')
       \<and> successful (stats (random_self s')) + length (random_all_data s)
           = successful (stats (random_self s)) + length (random_all_data s')
       \<and> failed (stats (random_self s')) + length (random_all_data s')
           = failed (stats (random_self s)) + length (random_all_data s) + length xs"
  using assms
proof (induction xs arbitrary: i s)
  case Nil
  then show ?case by simp
next
  case (Cons a xs)
  then obtain s1 where s1: "collect_bulk_random_step e p i a s = Inr s1"
    and rest: "collect_bulk_random_loop e p (Suc i) xs s1 = Inr s'"
    by (auto split: sum.splits)
  note st = random_step_cases[OF s1]
  have g1: "\<forall>r \<in> set (random_all_data s1). details_type r = Some ''game''"
    using st Cons.prems(2) by (auto split: if_splits)
  note ih = Cons.IH[OF rest g1]
  show ?case
  proof (cases "not_a_game e (random_world s) a")
    case True
    then show ?thesis using st ih by simp
  next
    case False
    then show ?thesis using st ih by auto
  qed
qed

lemma collect_single_game_simple_cases:
  assumes "collect_single_game_simple e w a = (res, w')"
  shows "if not_a_game e w a
         then res = None \<and> requests w' = requests w @ [AppDetails a]
         else \<exists>r. res = Some r \<and> simple_app_id r = a
                \<and> requests w' = requests w @ [AppDetails a, CurrentPlayers a, AppReviews a]"
  using assms
  by (auto simp: collect_single_game_simple_def is_game_def get_player_count_int_def
      get_review_count_def not_a_game_def Let_def
      split: option.splits if_splits prod.splits)

lemma not_a_game_witness:
  "\<not> not_a_game e w a \<Longrightarrow> \<exists>t d. appdetails e t a = Some d \<and> api_type d = Some ''game''"
  by (auto simp: not_a_game_def split: option.splits)

lemma simple_loop_counts:
  assumes "collect_bulk_simple_loop e xs (data, su, fa, w) = (data', su', fa', w')"
    and "\<forall>r \<in> set data. \<exists>t d. appdetails e t (simple_app_id r) = Some d \<and> api_type d = Some ''game''"
  shows "(\<forall>r \<in> set data'. \<exists>t d. appdetails e t (simple_app_id r) = Some d \<and> api_type d = Some ''game'')
       \<and> su' + length data = su + length data'
       \<and> su' + fa' = su + fa + length xs"
  using assms
proof (induction xs arbitrary: data su fa w)
  case Nil
  then show ?case by simp
next
  case (Cons a xs)
  obtain res w1 where c: "collect_single_game_simple e w a = (res, w1)"
    by (cases "collect_single_game_simple e w a") auto
  note cs = collect_single_game_simple_cases[OF c]
  show ?case
  proof (cases res)
    case None
    then have rest: "collect_bulk_simple_loop e xs (data, su, fa + 1, w1) = (data', su', fa', w')"
      using Cons.prems(1) c by simp
    from Cons.IH[OF rest Cons.prems(2)] show ?thesis by simp
  next
    case (Some r)
    then have rest: "collect_bulk_simple_loop e xs (data @ [r], su + 1, fa, w1) = (data', su', fa', w')"
      using Cons.prems(1) c by simp
    have "\<not> not_a_game e w a" and "simple_app_id r = a"
      using cs Some by (auto split: if_splits)
    then have "\<forall>r \<in> set (data @ [r]). \<exists>t d. appdetails e t (simple_app_id r) = Some d \<and> api_type d = Some ''game''"
      using Cons.prems(2) not_a_game_witness by auto
    from Cons.IH[OF rest this] show ?thesis by simp
  qed
qed


lemmas metadata_run_simps =
  collect_bulk_random_def collect_bulk_random_step_def collect_single_game_def
  get_game_details_def get_player_count_int_def get_achievement_count_def
  collect_bulk_simple_def collect_single_game_simple_def is_game_def get_review_count_def
  save_checkpoint_def checkpoint_file_random_def print_final_stats_def
  example_env_def empty_world_def new_collector_def game_details.defs
  Let_def str_of_nat.simps

text \<open>
  Claim C8: the game-only filter of \<open>SteamRandomCollector\<close> and \<open>SteamDataCollector\<close>.
  For one identifier: if its details request fails, returns no data or reports a type
  other than \<open>game\<close>, \<open>collect_single_game\<close> returns nothing and has issued the details
  request only; otherwise it returns a record for that identifier (of type \<open>game\<close>, where
  the record has a type). In the loop of \<open>collect_bulk\<close> the first case leaves the list as
  it is and adds one to the failure counter, the second appends the record and adds one
  to the success counter. Hence every record of the returned list has type \<open>game\<close> (for
  \<open>SteamDataCollector\<close>, whose records carry no type: the store reported the type \<open>game\<close>
  for its identifier), and the identifiers without a record are those counted as failed.
\<close>

theorem game_only_filter:
  "(collect_single_game e st w a = (res, st', w') \<longrightarrow>
      (if not_a_game e w a
       then res = None \<and> requests w' = requests w @ [AppDetails a]
       else \<exists>gd. res = Some gd \<and> details_type gd = Some ''game'' \<and> details_app_id gd = a))
   \<and> (collect_bulk_random_step e p i a s = Inr s' \<longrightarrow>
      (if not_a_game e (random_world s) a
       then random_all_data s' = random_all_data s
          \<and> failed (stats (random_self s')) = failed (stats (random_self s)) + 1
          \<and> successful (stats (random_self s')) = successful (stats (random_self s))
       else \<exists>gd. random_all_data s' = random_all_data s @ [gd]
          \<and> details_type gd = Some ''game'' \<and> details_app_id gd = a
          \<and> successful (stats (random_self s')) = successful (stats (random_self s)) + 1
          \<and> failed (stats (random_self s')) = failed (stats (random_self s))))
   \<and> (collect_bulk_random e slf w ids p = Inr (data, slf', w1) \<longrightarrow>
      (\<forall>r \<in> set data. details_type r = Some ''game'')
      \<and> successful (stats slf') = successful (stats slf) + length data
      \<and> failed (stats slf') + length data = failed (stats slf) + length ids)
   \<and> (collect_single_game_simple e v a = (res2, v') \<longrightarrow>
      (if not_a_game e v a
       then res2 = None \<and> requests v' = requests v @ [AppDetails a]
       else \<exists>r. res2 = Some r \<and> simple_app_id r = a))
   \<and> (collect_bulk_simple e v ids = (data2, successful2, failed2, v1) \<longrightarrow>
      length data2 = successful2 \<and> successful2 + failed2 = length ids
      \<and> (\<forall>r \<in> set data2. \<exists>t d. appdetails e t (simple_app_id r) = Some d
              \<and> api_type d = Some ''game''))"
proof (intro conjI impI)
  assume "collect_single_game e st w a = (res, st', w')"
  from collect_single_game_cases[OF this]
  show "if not_a_game e w a
       then res = None \<and> requests w' = requests w @ [AppDetails a]
       else \<exists>gd. res = Some gd \<and> details_type gd = Some ''game'' \<and> details_app_id gd = a"
    by (auto split: if_splits)
next
  assume "collect_bulk_random_step e p i a s = Inr s'"
  from random_step_cases[OF this]
  show "if not_a_game e (random_world s) a
       then random_all_data s' = random_all_data s
          \<and> failed (stats (random_self s')) = failed (stats (random_self s)) + 1
          \<and> successful (stats (random_self s')) = successful (stats (random_self s))
       else \<exists>gd. random_all_data s' = random_all_data s @ [gd]
          \<and> details_type gd = Some ''game'' \<and> details_app_id gd = a
          \<and> successful (stats (random_self s')) = successful (stats (random_self s)) + 1
          \<and> failed (stats (random_self s')) = failed (stats (random_self s))" .
next
  assume run: "collect_bulk_random e slf w ids p = Inr (data, slf', w1)"
  let ?s0 = "\<lparr>random_all_data = [],
              random_self = slf\<lparr>stats := (stats slf)\<lparr>total_requested := length ids\<rparr>\<rparr>,
              random_world = w\<rparr>"
  from run obtain s where loop: "collect_bulk_random_loop e p 1 ids ?s0 = Inr s"
    and res: "data = random_all_data s" "slf' = random_self s"
    by (auto simp: collect_bulk_random_def Let_def split: sum.splits option.splits)
  have counts: "(\<forall>r \<in> set (random_all_data s). details_type r = Some ''game'')
       \<and> successful (stats (random_self s)) + length (random_all_data ?s0)
           = successful (stats (random_self ?s0)) + length (random_all_data s)
       \<and> failed (stats (random_self s)) + length (random_all_data s)
           = failed (stats (random_self ?s0)) + length (random_all_data ?s0) + length ids"
    using loop by (rule random_loop_counts) simp
  from counts res show "\<forall>r \<in> set data. details_type r = Some ''game''" by simp
  from counts res show "successful (stats slf') = successful (stats slf) + length data" by simp
  from counts res show "failed (stats slf') + length data = failed (stats slf) + length ids"
    by simp
next
  assume "collect_single_game_simple e v a = (res2, v')"
  from collect_single_game_simple_cases[OF this]
  show "if not_a_game e v a
       then res2 = None \<and> requests v' = requests v @ [AppDetails a]
       else \<exists>r. res2 = Some r \<and> simple_app_id r = a"
    by (auto split: if_splits)
next
  assume run: "collect_bulk_simple e v ids = (data2, successful2, failed2, v1)"
  then have loop: "collect_bulk_simple_loop e ids ([], 0, 0, v) = (data2, successful2, failed2, v1)"
    by (simp add: collect_bulk_simple_def)
  have counts: "(\<forall>r \<in> set data2. \<exists>t d. appdetails e t (simple_app_id r) = Some d
              \<and> api_type d = Some ''game'')
       \<and> successful2 + length ([] :: simple_data list) = 0 + length data2
       \<and> successful2 + failed2 = 0 + 0 + length ids"
    using loop by (rule simple_loop_counts) simp
  from counts show "length data2 = successful2" by simp
  from counts show "successful2 + failed2 = length ids" by simp
  from counts show "\<forall>r \<in> set data2. \<exists>t d. appdetails e t (simple_app_id r) = Some d
              \<and> api_type d = Some ''game''" by simp
qed

theorem game_only_filter_witness:
  "map details_type (fst (projr (collect_bulk_random example_env (new_collector 2) empty_world
      [10, 30, 40] ''r''))) = [Some ''game'']
   \<and> failed (stats (fst (snd (projr (collect_bulk_random example_env (new_collector 2) empty_world
      [10, 30, 40] ''r''))))) = 2
   \<and> map simple_app_id (fst (collect_bulk_simple example_env empty_world [10, 30, 40])) = [10]
   \<and> fst (snd (snd (collect_bulk_simple example_env empty_world [10, 30, 40]))) = 2"
proof -
  obtain data slf' w1 where
    run: "collect_bulk_random example_env (new_collector 2) empty_world [10, 30, 40] ''r''
            = Inr (data, slf', w1)"
    and len: "length data = 1"
    by (simp add: metadata_run_simps)
  obtain data2 successful2 failed2 v1 where
    run2: "collect_bulk_simple example_env empty_world [10, 30, 40]
            = (data2, successful2, failed2, v1)"
    and ids2: "map simple_app_id data2 = [10]"
    by (simp add: metadata_run_simps)
  note filter = game_only_filter[where e = example_env and slf = "new_collector 2"
      and w = empty_world and ids = "[10, 30, 40]" and p = "''r''" and data = data
      and slf' = slf' and ?w1.0 = w1 and v = empty_world and ?data2.0 = data2
      and ?successful2.0 = successful2 and ?failed2.0 = failed2 and ?v1.0 = v1]
  note bulk = filter[THEN conjunct2, THEN conjunct2, THEN conjunct1, THEN mp, OF run]
  note simple = filter[THEN conjunct2, THEN conjunct2, THEN conjunct2, THEN conjunct2,
      THEN mp, OF run2]
  from bulk have games: "\<forall>r \<in> set data. details_type r = Some ''game''"
    by simp
  from bulk have
    "failed (stats slf') + length data
       = failed (stats (new_collector 2)) + length [10, 30, 40 :: int]"
    by simp
  then have failures: "failed (stats slf') = 2"
    using len by (simp add: new_collector_def)
  obtain r where "data = [r]"
    using len by (metis One_nat_def length_0_conv length_Suc_conv)
  then have types: "map details_type data = [Some ''game'']"
    using games by simp
  from simple have "length data2 = successful2"
    and "successful2 + failed2 = length [10, 30, 40 :: int]"
    by simp_all
  moreover have "length data2 = 1"
    using ids2 by (metis length_map length_Cons list.size(3) One_nat_def)
  ultimately have "failed2 = 2" by simp
  then show ?thesis
    using run run2 ids2 types failures by simp
qed

end
